theory Spec2Isabelle
  imports Complex_Main "HOL-Library.Word" "HOL-Library.Multiset" "HOL-Library.Product_Lexorder"
begin

section \<open>The viewer: frontend/src (SupportAssistant)\<close>

subsection \<open>JavaScript numbers\<close>

text \<open>
  A JavaScript \<open>number\<close> is a double. The viewer only compares numbers, takes
  \<open>Math.max\<close> and \<open>Math.min\<close> of them, and adds or subtracts 1. A finite double is
  modelled by the rational it denotes (\<open>-0\<close> and \<open>0\<close> are both \<open>Fin 0\<close>: the
  operations used here do not tell them apart); \<open>NaN\<close> and the two infinities are
  values of their own. \<open>p + 1\<close> and \<open>p - 1\<close> are exact on the integers below
  \<open>2^53\<close>, which is where page numbers live.
\<close>

datatype jsnum = NaN | NegInf | Fin rat | PosInf

text \<open>\<open>a <= b\<close>: false as soon as one side is \<open>NaN\<close>.\<close>

fun js_le :: "jsnum \<Rightarrow> jsnum \<Rightarrow> bool" where
  "js_le NaN b = False"
| "js_le a NaN = False"
| "js_le NegInf b = True"
| "js_le a PosInf = True"
| "js_le (Fin a) (Fin b) = (a \<le> b)"
| "js_le a b = False"

text \<open>\<open>a >= b\<close>.\<close>

definition js_ge :: "jsnum \<Rightarrow> jsnum \<Rightarrow> bool" where
  "js_ge a b = js_le b a"

definition Math_max :: "jsnum \<Rightarrow> jsnum \<Rightarrow> jsnum" where
  "Math_max a b = (if a = NaN \<or> b = NaN then NaN else if js_le a b then b else a)"

definition Math_min :: "jsnum \<Rightarrow> jsnum \<Rightarrow> jsnum" where
  "Math_min a b = (if a = NaN \<or> b = NaN then NaN else if js_le a b then a else b)"

fun js_plus :: "jsnum \<Rightarrow> jsnum \<Rightarrow> jsnum" where
  "js_plus NaN b = NaN"
| "js_plus a NaN = NaN"
| "js_plus (Fin a) (Fin b) = Fin (a + b)"
| "js_plus PosInf NegInf = NaN"
| "js_plus NegInf PosInf = NaN"
| "js_plus PosInf b = PosInf"
| "js_plus a PosInf = PosInf"
| "js_plus NegInf b = NegInf"
| "js_plus a NegInf = NegInf"

fun js_neg :: "jsnum \<Rightarrow> jsnum" where
  "js_neg NaN = NaN"
| "js_neg NegInf = PosInf"
| "js_neg PosInf = NegInf"
| "js_neg (Fin a) = Fin (- a)"

definition js_minus :: "jsnum \<Rightarrow> jsnum \<Rightarrow> jsnum" where
  "js_minus a b = js_plus a (js_neg b)"

text \<open>Truthiness of a number: \<open>0\<close> and \<open>NaN\<close> are falsy.\<close>

definition num_truthy :: "jsnum \<Rightarrow> bool" where
  "num_truthy n = (n \<noteq> NaN \<and> n \<noteq> Fin 0)"

text \<open>A number that is a whole number: what a page of a document is.\<close>

fun is_integer :: "jsnum \<Rightarrow> bool" where
  "is_integer (Fin q) = (q = of_int \<lfloor>q\<rfloor>)"
| "is_integer n = False"

subsection \<open>JavaScript strings and values\<close>

text \<open>
  A JavaScript string is a sequence of UTF-16 code units. \<open>utf16\<close> gives the code
  units of an ASCII literal of the source.
\<close>

type_synonym char16 = "16 word"
type_synonym jsstring = "char16 list"

definition utf16 :: "string \<Rightarrow> jsstring" where
  "utf16 s = map (\<lambda>c. of_char c) s"

text \<open>
  What \<open>res.json()\<close> can return, and \<open>undefined\<close>, which reading a missing
  property gives. An object is the list of its own properties; the first entry of a
  name is the property's value.
\<close>

datatype jsval =
    JUndefined
  | JNull
  | JBool bool
  | JNum jsnum
  | JStr jsstring
  | JArr "jsval list"
  | JObj "(jsstring \<times> jsval) list"

datatype js_error = TypeError

fun truthy :: "jsval \<Rightarrow> bool" where
  "truthy JUndefined = False"
| "truthy JNull = False"
| "truthy (JBool b) = b"
| "truthy (JNum n) = num_truthy n"
| "truthy (JStr s) = (s \<noteq> [])"
| "truthy (JArr xs) = True"
| "truthy (JObj kvs) = True"

text \<open>\<open>a || b\<close> and \<open>a && b\<close> on values already computed (the source's right
  operands that can throw are sequenced by hand where they are used).\<close>

definition js_or :: "jsval \<Rightarrow> jsval \<Rightarrow> jsval" where
  "js_or a b = (if truthy a then a else b)"

definition Array_isArray :: "jsval \<Rightarrow> bool" where
  "Array_isArray v = (case v of JArr xs \<Rightarrow> True | _ \<Rightarrow> False)"

text \<open>
  \<open>v.name\<close>, for the names the viewer reads (\<open>answer\<close>, \<open>citations\<close>,
  \<open>manual_sections\<close>, \<open>top_pages\<close>, \<open>manual_id\<close>, \<open>page\<close>): none of them is a
  property of a built-in prototype, so only an object's own properties can hold them.
  Reading a property of \<open>null\<close> or \<open>undefined\<close> throws a TypeError.
\<close>

fun get_prop :: "jsval \<Rightarrow> string \<Rightarrow> js_error + jsval" where
  "get_prop JUndefined name = Inl TypeError"
| "get_prop JNull name = Inl TypeError"
| "get_prop (JObj kvs) name =
     Inr (case map_of kvs (utf16 name) of None \<Rightarrow> JUndefined | Some x \<Rightarrow> x)"
| "get_prop v name = Inr JUndefined"

text \<open>\<open>v?.name\<close>: \<open>undefined\<close> on \<open>null\<close> and \<open>undefined\<close>, never an error.\<close>

definition get_opt :: "jsval \<Rightarrow> string \<Rightarrow> jsval" where
  "get_opt v name = (case get_prop v name of Inl e \<Rightarrow> JUndefined | Inr x \<Rightarrow> x)"

text \<open>\<open>v[0]\<close>: the first element of an array, the first code unit of a string, the
  property \<open>"0"\<close> of an object.\<close>

fun index0 :: "jsval \<Rightarrow> js_error + jsval" where
  "index0 JUndefined = Inl TypeError"
| "index0 JNull = Inl TypeError"
| "index0 (JArr xs) = Inr (case xs of [] \<Rightarrow> JUndefined | x # _ \<Rightarrow> x)"
| "index0 (JStr s) = Inr (case s of [] \<Rightarrow> JUndefined | c # _ \<Rightarrow> JStr [c])"
| "index0 (JObj kvs) = get_prop (JObj kvs) ''0''"
| "index0 v = Inr JUndefined"

text \<open>
  A parsed value that has no primitive value (ECMAScript's OrdinaryToPrimitive). An
  object is converted by its \<open>valueOf\<close> and \<open>toString\<close>; the inherited
  \<open>valueOf\<close> returns the object itself, so the conversion rests on \<open>toString\<close>,
  and an own property \<open>toString\<close> of parsed data is never callable: the conversion
  then throws a TypeError. An array is converted by joining the strings of its
  elements (\<open>null\<close> gives the empty string), which throws when an element has no
  primitive value.
\<close>

fun no_primitive :: "jsval \<Rightarrow> bool" where
  "no_primitive (JObj kvs) = (map_of kvs (utf16 ''toString'') \<noteq> None)"
| "no_primitive (JArr xs) = list_ex no_primitive xs"
| "no_primitive v = False"

text \<open>
  \<open>Number(v)\<close>, which \<open>Math.max\<close> also applies to its arguments. It throws a
  TypeError on an array or an object that has no primitive value. What number a
  string, or the string of an array or an object, denotes is the runtime's business
  (ECMAScript's StringToNumber): the parameter \<open>P\<close>.
\<close>

fun to_number :: "(jsval \<Rightarrow> jsnum) \<Rightarrow> jsval \<Rightarrow> js_error + jsnum" where
  "to_number P JUndefined = Inr NaN"
| "to_number P JNull = Inr (Fin 0)"
| "to_number P (JBool b) = Inr (Fin (if b then 1 else 0))"
| "to_number P (JNum n) = Inr n"
| "to_number P (JStr s) = Inr (P (JStr s))"
| "to_number P v = (if no_primitive v then Inl TypeError else Inr (P v))"

text \<open>
  \<open>String.prototype.trim\<close> removes ECMAScript's WhiteSpace and LineTerminator code
  points from both ends.
\<close>

definition js_whitespace :: "char16 \<Rightarrow> bool" where
  "js_whitespace c = (c \<in> set [0x09, 0x0A, 0x0B, 0x0C, 0x0D, 0x20, 0xA0, 0x1680,
     0x2000, 0x2001, 0x2002, 0x2003, 0x2004, 0x2005, 0x2006, 0x2007, 0x2008, 0x2009,
     0x200A, 0x2028, 0x2029, 0x202F, 0x205F, 0x3000, 0xFEFF])"

definition trim :: "jsstring \<Rightarrow> jsstring" where
  "trim s = rev (dropWhile js_whitespace (rev (dropWhile js_whitespace s)))"

subsection \<open>The component's state\<close>

text \<open>\<open>type Manual = { id: string; label: string; pdf_url: string }\<close>\<close>

record Manual =
  id' :: jsstring
  label :: jsstring
  pdf_url :: jsstring

text \<open>
  One field per \<open>useState\<close> of \<open>SupportAssistant\<close>. \<open>handleAsk\<close> stores what
  \<open>res.json()\<close> returned without checking it against \<open>AskResponse\<close>, so the fields
  it writes hold any value. \<open>numPages\<close> starts \<open>undefined\<close> (\<open>None\<close>).
\<close>

record ui_state =
  manuals :: "Manual list"
  manualId :: jsval
  numPages :: "jsnum option"
  pageNumber :: jsnum
  query :: jsstring
  answer :: jsval
  citations :: jsval
  sections :: jsval
  loading :: bool
  askError :: jsval

definition initial_state :: ui_state where
  "initial_state = \<lparr> manuals = [], manualId = JStr [], numPages = None,
     pageNumber = Fin 1, query = [], answer = JStr [], citations = JArr [],
     sections = JArr [], loading = False, askError = JStr [] \<rparr>"

text \<open>\<open>manuals.find((m) => m.id === manualId)?.pdf_url ?? ""\<close>\<close>

definition pdfUrl :: "ui_state \<Rightarrow> jsstring" where
  "pdfUrl st = (case find (\<lambda>m. JStr (id' m) = manualId st) (manuals st) of
     None \<Rightarrow> [] | Some m \<Rightarrow> pdf_url m)"

text \<open>\<open>onDocLoadSuccess\<close>, and the \<open>onChange\<close> handlers of the manual selector and
  of the question box.\<close>

definition onDocLoadSuccess :: "jsnum \<Rightarrow> ui_state \<Rightarrow> ui_state" where
  "onDocLoadSuccess n st = st\<lparr>numPages := Some n\<rparr>"

definition select_manual :: "jsstring \<Rightarrow> ui_state \<Rightarrow> ui_state" where
  "select_manual v st = st\<lparr>manualId := JStr v, pageNumber := Fin 1\<rparr>"

definition type_query :: "jsstring \<Rightarrow> ui_state \<Rightarrow> ui_state" where
  "type_query v st = st\<lparr>query := v\<rparr>"

subsection \<open>Page navigation\<close>

text \<open>\<open>numPages || d\<close> and \<open>!numPages\<close>, for the optional number \<open>numPages\<close>.\<close>

definition numPages_or :: "jsnum option \<Rightarrow> jsnum \<Rightarrow> jsnum" where
  "numPages_or n d = (case n of None \<Rightarrow> d | Some v \<Rightarrow> if num_truthy v then v else d)"

definition numPages_falsy :: "jsnum option \<Rightarrow> bool" where
  "numPages_falsy n = (case n of None \<Rightarrow> True | Some v \<Rightarrow> \<not> num_truthy v)"

text \<open>The Prev button: \<open>setPageNumber((p) => Math.max(1, p - 1))\<close>,
  \<open>disabled={pageNumber <= 1}\<close>.\<close>

definition prev_onClick :: "ui_state \<Rightarrow> ui_state" where
  "prev_onClick st = st\<lparr>pageNumber := Math_max (Fin 1) (js_minus (pageNumber st) (Fin 1))\<rparr>"

definition prev_disabled :: "ui_state \<Rightarrow> bool" where
  "prev_disabled st = js_le (pageNumber st) (Fin 1)"

text \<open>The Next button: \<open>setPageNumber((p) => Math.min(numPages || p, p + 1))\<close>,
  \<open>disabled={!numPages || pageNumber >= (numPages || 1)}\<close>.\<close>

definition next_onClick :: "ui_state \<Rightarrow> ui_state" where
  "next_onClick st = st\<lparr>pageNumber :=
     Math_min (numPages_or (numPages st) (pageNumber st)) (js_plus (pageNumber st) (Fin 1))\<rparr>"

definition next_disabled :: "ui_state \<Rightarrow> bool" where
  "next_disabled st =
     (numPages_falsy (numPages st) \<or> js_ge (pageNumber st) (numPages_or (numPages st) (Fin 1)))"

text \<open>
  Pressing a button: a disabled button does not run its handler, and the two buttons
  are only rendered when a PDF is selected (\<open>!pdfUrl ? ... : ...\<close>).
\<close>

definition press_prev :: "ui_state \<Rightarrow> ui_state" where
  "press_prev st = (if pdfUrl st = [] \<or> prev_disabled st then st else prev_onClick st)"

definition press_next :: "ui_state \<Rightarrow> ui_state" where
  "press_next st = (if pdfUrl st = [] \<or> next_disabled st then st else next_onClick st)"

text \<open>The invariant of the loaded viewer: \<open>1 <= pageNumber <= numPages\<close>.\<close>

definition page_in_range :: "ui_state \<Rightarrow> bool" where
  "page_in_range st = (case numPages st of None \<Rightarrow> False
     | Some n \<Rightarrow> js_le (Fin 1) (pageNumber st) \<and> js_le (pageNumber st) n)"

subsection \<open>Jumping to a cited page\<close>

text \<open>
  The button of a citation \<open>c\<close> and of a manual section \<open>s\<close>:
  \<open>onClick={() => setPageNumber(Math.max(1, c.page || 1))}\<close>.
\<close>

definition jump_onClick :: "(jsval \<Rightarrow> jsnum) \<Rightarrow> jsval \<Rightarrow> ui_state \<Rightarrow> js_error + ui_state" where
  "jump_onClick P c st = (case get_prop c ''page'' of
       Inl e \<Rightarrow> Inl e
     | Inr pg \<Rightarrow> (case to_number P (js_or pg (JNum (Fin 1))) of
           Inl e \<Rightarrow> Inl e
         | Inr n \<Rightarrow> Inr (st\<lparr>pageNumber := Math_max (Fin 1) n\<rparr>)))"

text \<open>
  The items that get a button: \<open>citations.map(...)\<close> and
  \<open>sections.slice(0, 4).map(...)\<close>. When the stored value is not an array the
  component shows no button for it (the block is skipped or rendering fails).
\<close>

definition citation_buttons :: "ui_state \<Rightarrow> jsval list" where
  "citation_buttons st = (case citations st of JArr cs \<Rightarrow> cs | _ \<Rightarrow> [])"

definition section_buttons :: "ui_state \<Rightarrow> jsval list" where
  "section_buttons st = (case sections st of JArr ss \<Rightarrow> take 4 ss | _ \<Rightarrow> [])"

subsection \<open>Asking a question\<close>

text \<open>The Ask button: \<open>disabled={!query.trim() || !pdfUrl || loading}\<close>.\<close>

definition ask_disabled :: "ui_state \<Rightarrow> bool" where
  "ask_disabled st = (trim (query st) = [] \<or> pdfUrl st = [] \<or> loading st)"

text \<open>\<open>handleAsk\<close> up to its \<open>fetch\<close>: the five state updates before the \<open>try\<close>.\<close>

definition handleAsk_begin :: "ui_state \<Rightarrow> ui_state" where
  "handleAsk_begin st = st\<lparr>askError := JStr [], loading := True, answer := JStr [],
     citations := JArr [], sections := JArr []\<rparr>"

text \<open>Pressing Ask: \<open>None\<close> when the button is disabled and \<open>handleAsk\<close> does
  not run.\<close>

definition press_ask :: "ui_state \<Rightarrow> ui_state option" where
  "press_ask st = (if ask_disabled st then None else Some (handleAsk_begin st))"

text \<open>
  The \<open>catch\<close> and \<open>finally\<close> blocks, given the value \<open>m\<close> of \<open>err?.message\<close>:
  \<open>setAskError(err?.message || "Failed to fetch answer."); setLoading(false)\<close>.
\<close>

definition on_catch :: "jsval \<Rightarrow> ui_state \<Rightarrow> ui_state" where
  "on_catch m st = st\<lparr>askError := js_or m (JStr (utf16 ''Failed to fetch answer.'')),
     loading := False\<rparr>"

text \<open>
  \<open>(Array.isArray(data.top_pages) && data.top_pages[0]) ||
     (data.citations && data.citations[0]?.page) || 1\<close>
\<close>

definition ask_jump :: "jsval \<Rightarrow> js_error + jsval" where
  "ask_jump data =
     (case get_prop data ''top_pages'' of Inl e \<Rightarrow> Inl e | Inr tp \<Rightarrow>
      (case (if Array_isArray tp then index0 tp else Inr (JBool False)) of
         Inl e \<Rightarrow> Inl e
       | Inr a \<Rightarrow>
           if truthy a then Inr a
           else (case get_prop data ''citations'' of Inl e \<Rightarrow> Inl e | Inr cs \<Rightarrow>
             (case (if truthy cs
                    then (case index0 cs of Inl e \<Rightarrow> Inl e | Inr c0 \<Rightarrow> Inr (get_opt c0 ''page''))
                    else Inr cs) of
                Inl e \<Rightarrow> Inl e
              | Inr b \<Rightarrow> Inr (js_or b (JNum (Fin 1)))))))"

text \<open>\<open>top_pages\<close> gives no page to jump to: it is not an array, it is empty, or
  its first element is falsy.\<close>

definition no_top_page :: "jsval \<Rightarrow> bool" where
  "no_top_page tp = (case tp of JArr (x # xs) \<Rightarrow> \<not> truthy x | _ \<Rightarrow> True)"

text \<open>\<open>Number(jump) || 1\<close>\<close>

definition num_or :: "jsnum \<Rightarrow> jsnum \<Rightarrow> jsnum" where
  "num_or n d = (if num_truthy n then n else d)"

text \<open>
  \<open>handleAsk\<close> from \<open>const data = await res.json()\<close> on, with its \<open>catch\<close> and
  \<open>finally\<close>. \<open>E e\<close> is the \<open>message\<close> of the error object the runtime throws
  for \<open>e\<close>. Each \<open>set...\<close> before a throwing statement has taken effect when the
  \<open>catch\<close> block runs; the statements that can throw are \<open>data.answer\<close>, on a
  body \<open>null\<close>, and \<open>Number(jump)\<close>, before \<open>setPageNumber\<close> is called.
\<close>

definition handleAsk_data ::
  "(jsval \<Rightarrow> jsnum) \<Rightarrow> (js_error \<Rightarrow> jsval) \<Rightarrow> ui_state \<Rightarrow> jsval \<Rightarrow> ui_state" where
  "handleAsk_data P E st data =
     (case get_prop data ''answer'' of Inl e \<Rightarrow> on_catch (E e) st | Inr a \<Rightarrow>
      let st1 = st\<lparr>answer := js_or a (JStr [])\<rparr> in
      (case get_prop data ''citations'' of Inl e \<Rightarrow> on_catch (E e) st1 | Inr c \<Rightarrow>
       let st2 = st1\<lparr>citations := js_or c (JArr [])\<rparr> in
       (case get_prop data ''manual_sections'' of Inl e \<Rightarrow> on_catch (E e) st2 | Inr s \<Rightarrow>
        let st3 = st2\<lparr>sections := js_or s (JArr [])\<rparr> in
        (case ask_jump data of Inl e \<Rightarrow> on_catch (E e) st3 | Inr j \<Rightarrow>
         (case to_number P j of Inl e \<Rightarrow> on_catch (E e) st3 | Inr n \<Rightarrow>
          let st4 = st3\<lparr>pageNumber := Math_max (Fin 1) (num_or n (Fin 1))\<rparr> in
          (case get_prop data ''manual_id'' of Inl e \<Rightarrow> on_catch (E e) st4 | Inr m \<Rightarrow>
           (if truthy m then st4\<lparr>manualId := m\<rparr> else st4)\<lparr>loading := False\<rparr>))))))"

text \<open>
  What the awaited \<open>fetch\<close> came to: a rejection of \<open>fetch\<close>, \<open>res.text()\<close> or
  \<open>res.json()\<close> (with the value of \<open>err?.message\<close>), a response that is not
  \<open>ok\<close> (its status and its text), or parsed data.
\<close>

datatype fetch_outcome = Rejected jsval | NotOk nat jsstring | Parsed jsval

text \<open>The decimal digits of a status code.\<close>

fun dec :: "nat \<Rightarrow> string" where
  "dec n = (if n < 10 then [char_of (48 + n)] else dec (n div 10) @ [char_of (48 + n mod 10)])"

text \<open>\<open>handleAsk\<close> after the \<open>fetch\<close>; a response that is not \<open>ok\<close> throws
  \<open>new Error(`Backend error (${res.status}): ${text}`)\<close>.\<close>

definition handleAsk_settle ::
  "(jsval \<Rightarrow> jsnum) \<Rightarrow> (js_error \<Rightarrow> jsval) \<Rightarrow> ui_state \<Rightarrow> fetch_outcome \<Rightarrow> ui_state" where
  "handleAsk_settle P E st out = (case out of
       Rejected m \<Rightarrow> on_catch m st
     | NotOk status body \<Rightarrow>
         on_catch (JStr (utf16 ''Backend error ('' @ utf16 (dec status) @ utf16 ''): '' @ body)) st
     | Parsed data \<Rightarrow> handleAsk_data P E st data)"

subsection \<open>A viewer with a document loaded\<close>

text \<open>The viewer showing page \<open>p\<close> of a manual of \<open>n\<close> pages, nothing asked yet.\<close>

definition viewer_at :: "rat \<Rightarrow> rat \<Rightarrow> ui_state" where
  "viewer_at p n = initial_state\<lparr>
     manuals := [\<lparr>id' = utf16 ''m1'', label = utf16 ''Manual'', pdf_url = utf16 ''/manuals/m1.pdf''\<rparr>],
     manualId := JStr (utf16 ''m1''), numPages := Some (Fin n), pageNumber := Fin p\<rparr>"

text \<open>A runtime for the examples, which convert numbers only: every string, array
  and object converts to \<open>NaN\<close>, and a thrown error carries no message.\<close>

definition sample_P :: "jsval \<Rightarrow> jsnum" where
  "sample_P v = NaN"

definition sample_E :: "js_error \<Rightarrow> jsval" where
  "sample_E e = JUndefined"

text \<open>A response of the declared type \<open>AskResponse\<close> that cites page \<open>p\<close>, and
  the viewer once it has received it.\<close>

definition sample_response :: "rat \<Rightarrow> jsval" where
  "sample_response p = JObj [
     (utf16 ''answer'', JStr (utf16 ''See the torque table.'')),
     (utf16 ''citations'', JArr [JObj [(utf16 ''page'', JNum (Fin p))]]),
     (utf16 ''manual_sections'', JArr [JObj [(utf16 ''page'', JNum (Fin p)),
        (utf16 ''snippet'', JStr (utf16 ''torque spec 35 Nm''))]]),
     (utf16 ''used_model'', JStr (utf16 ''llama'')),
     (utf16 ''top_pages'', JArr [JNum (Fin p)]),
     (utf16 ''manual_id'', JStr (utf16 ''m1''))]"

definition answered :: "rat \<Rightarrow> ui_state" where
  "answered p = handleAsk_data sample_P sample_E (handleAsk_begin (viewer_at 1 10))
     (sample_response p)"

text \<open>A response body whose first top page is an object with an own property
  \<open>toString\<close>, as \<open>{"top_pages": [{"toString": 1}]}\<close> parses to: \<open>Number\<close>
  throws on it.\<close>

definition sample_unconvertible :: jsval where
  "sample_unconvertible =
     JObj [(utf16 ''top_pages'', JArr [JObj [(utf16 ''toString'', JNum (Fin 1))]])]"

section \<open>The retrieval and answer engine\<close>

text \<open>
  The engine behind the \<open>/ask\<close> endpoint (ingestion, hybrid retrieval, context
  building, answer synthesis) is not among the source files: only its caller, the
  viewer above, and the type \<open>AskResponse\<close> are. Its parts are modelled from the
  specification, sections 3 and 4. Scores, floats there, are rationals here: the
  properties below are about order and membership, not about rounding.
\<close>

subsection \<open>Data model\<close>

text \<open>Modelled from the spec: Chunk (section 3), without its embedding, which only the
  vector store reads.\<close>

record Chunk =
  chunk_id :: nat
  chunk_manual :: string
  chunk_page :: nat
  chunk_text :: string
  order_index :: nat

text \<open>Modelled from the spec: the two sources of a RetrievalHit.\<close>

datatype hit_source = Vector | Lexical

text \<open>Modelled from the spec: RetrievalHit (section 3).\<close>

record RetrievalHit =
  hit_chunk :: nat
  hit_manual :: string
  hit_page :: nat
  hit_score :: rat
  hit_source :: hit_source

text \<open>Modelled from the spec: FusedCandidate (section 3).\<close>

record FusedCandidate =
  cand_page :: nat
  cand_product :: "string option"
  cand_score :: rat
  snippet :: string
  full_text :: string

text \<open>Modelled from the spec: Citation (section 3), the projection of a
  FusedCandidate.\<close>

record Citation =
  cite_page :: nat
  cite_product :: "string option"
  cite_score :: "rat option"

text \<open>Modelled from the spec: AnswerResult (section 3). Its fields are those of the
  source's \<open>AskResponse\<close>: answer, citations, manual_sections, used_model, top_pages,
  manual_id.\<close>

record AnswerResult =
  result_answer :: string
  result_citations :: "Citation list"
  manual_sections :: "FusedCandidate list"
  used_model :: string
  top_pages :: "nat list"
  manual_id :: string

text \<open>Modelled from the spec: the error taxonomy of section 7, as far as a query
  goes.\<close>

datatype query_error = RetrievalBackendError | SynthesisError

text \<open>
  Modelled from the spec: the policy parameters the spec calls configurable or leaves
  open: the fusion weights (section 4.4, default 0.6 and 0.4), the number \<open>k\<close> of
  candidates, the length of a snippet, the context budget (4.5), the relevance floor
  and the number N of manual sections (4.6). \<open>flat_score\<close> is the normalized score
  of a result set whose scores are all equal, where min-max normalization divides by
  zero and the spec names no value.
\<close>

record config =
  w_vector :: rat
  w_text :: rat
  flat_score :: rat
  top_k :: int
  snippet_length :: nat
  context_budget :: nat
  relevance_floor :: rat
  sections_shown :: nat

subsection \<open>Hybrid Retriever\<close>

text \<open>Modelled from the spec: the least of the returned scores (section 4.4, step 2,
  "min-max over the returned set").\<close>

definition lowest :: "rat list \<Rightarrow> rat" where
  "lowest xs = (case xs of [] \<Rightarrow> 0 | x # r \<Rightarrow> fold min r x)"

text \<open>Modelled from the spec: the greatest of the returned scores (section 4.4,
  step 2).\<close>

definition highest :: "rat list \<Rightarrow> rat" where
  "highest xs = (case xs of [] \<Rightarrow> 0 | x # r \<Rightarrow> fold max r x)"

text \<open>Modelled from the spec: min-max normalization of one score, between the least
  and the greatest of its backend (section 4.4, step 2).\<close>

definition rescale :: "rat \<Rightarrow> rat \<Rightarrow> rat \<Rightarrow> rat \<Rightarrow> rat" where
  "rescale flat lo hi s = (if hi = lo then flat else (s - lo) / (hi - lo))"

text \<open>Modelled from the spec: one backend's scores normalized to \<open>[0,1]\<close> over
  the returned set (section 4.4, step 2).\<close>

definition normalize :: "rat \<Rightarrow> RetrievalHit list \<Rightarrow> RetrievalHit list" where
  "normalize flat hs =
     (let lo = lowest (map hit_score hs); hi = highest (map hit_score hs)
      in map (\<lambda>h. h\<lparr>hit_score := rescale flat lo hi (hit_score h)\<rparr>) hs)"

text \<open>Modelled from the spec: the best score a page has among the hits of one
  backend, 0 when the backend has no hit on the page (section 4.4, step 3).\<close>

definition best_score :: "nat \<Rightarrow> RetrievalHit list \<Rightarrow> rat" where
  "best_score p hs = (case filter (\<lambda>h. hit_page h = p) hs of
       [] \<Rightarrow> 0
     | h # r \<Rightarrow> fold max (map hit_score r) (hit_score h))"

text \<open>Modelled from the spec: what a hit contributes to the fused score of its
  page, its normalized score under the weight of its backend (section 4.4, step 3).\<close>

definition contribution :: "config \<Rightarrow> RetrievalHit \<Rightarrow> rat" where
  "contribution cfg h =
     (case hit_source h of Vector \<Rightarrow> w_vector cfg | Lexical \<Rightarrow> w_text cfg) * hit_score h"

text \<open>Modelled from the spec: the first of the greatest under \<open>f\<close>, for the
  winning chunk of step 5.\<close>

fun first_best :: "('a \<Rightarrow> rat) \<Rightarrow> 'a \<Rightarrow> 'a list \<Rightarrow> 'a" where
  "first_best f b [] = b"
| "first_best f b (x # xs) = first_best f (if f b < f x then x else b) xs"

text \<open>
  Modelled from the spec: the text of the winning chunk of a page (section 4.4, step
  5). The spec does not say which chunk wins; here it is the hit on the page that
  contributes most to the fused score, the earliest one among equals, vector hits
  first.
\<close>

definition winning_text :: "config \<Rightarrow> (nat \<Rightarrow> string) \<Rightarrow> nat \<Rightarrow> RetrievalHit list \<Rightarrow> string" where
  "winning_text cfg text_of p hs = (case filter (\<lambda>h. hit_page h = p) hs of
       [] \<Rightarrow> []
     | h # r \<Rightarrow> text_of (hit_chunk (first_best (contribution cfg) h r)))"

text \<open>
  Modelled from the spec: steps 2 and 3 of section 4.4. Each backend's scores are
  normalized on their own; the hits are grouped by page, one candidate per page; the
  fused score of a page is the weighted sum of its best vector score and its best text
  score. \<open>text_of\<close> reads the text of a chunk from the index, \<open>product\<close> is the
  product id of the manual.
\<close>

definition fuse ::
  "config \<Rightarrow> (nat \<Rightarrow> string) \<Rightarrow> string option \<Rightarrow> RetrievalHit list \<Rightarrow> RetrievalHit list
    \<Rightarrow> FusedCandidate list" where
  "fuse cfg text_of product vs ts =
     (let nv = normalize (flat_score cfg) vs; nt = normalize (flat_score cfg) ts
      in map (\<lambda>p. \<lparr>cand_page = p, cand_product = product,
                   cand_score = w_vector cfg * best_score p nv + w_text cfg * best_score p nt,
                   snippet = take (snippet_length cfg) (winning_text cfg text_of p (nv @ nt)),
                   full_text = winning_text cfg text_of p (nv @ nt)\<rparr>)
           (remdups (map hit_page (nv @ nt))))"

text \<open>Modelled from the spec: the order of step 4, fused score descending, then page
  ascending, as a sort key under the lexicographic order of pairs.\<close>

definition rank_key :: "FusedCandidate \<Rightarrow> rat \<times> nat" where
  "rank_key c = (- cand_score c, cand_page c)"

text \<open>Modelled from the spec: \<open>a\<close> stands before \<open>b\<close> in the ranking of step 4.\<close>

definition ranks_before :: "FusedCandidate \<Rightarrow> FusedCandidate \<Rightarrow> bool" where
  "ranks_before a b =
     (cand_score b < cand_score a \<or> (cand_score a = cand_score b \<and> cand_page a < cand_page b))"

text \<open>Modelled from the spec: steps 2 to 5 of section 4.4 on the two result sets.\<close>

definition hybrid_rank ::
  "config \<Rightarrow> (nat \<Rightarrow> string) \<Rightarrow> string option \<Rightarrow> int \<Rightarrow> RetrievalHit list \<Rightarrow> RetrievalHit list
    \<Rightarrow> FusedCandidate list" where
  "hybrid_rank cfg text_of product k vs ts =
     take (nat k) (sort_key rank_key (fuse cfg text_of product vs ts))"

text \<open>Modelled from the spec: what the Hybrid Retriever hands on, the candidates and
  the warning flag of a degraded result set (section 4.4, Failure).\<close>

record retrieval =
  candidates :: "FusedCandidate list"
  degraded :: bool

text \<open>
  Modelled from the spec: the Hybrid Retriever on the outcomes of the two backends,
  \<open>None\<close> for a backend that is unavailable (section 4.4, Failure; section 7). With
  one backend down the ranking uses the other alone, the missing side counting 0, and
  the flag is set. With both down the query fails.
\<close>

definition hybrid_retrieve ::
  "config \<Rightarrow> (nat \<Rightarrow> string) \<Rightarrow> string option \<Rightarrow> int
    \<Rightarrow> RetrievalHit list option \<Rightarrow> RetrievalHit list option \<Rightarrow> query_error + retrieval" where
  "hybrid_retrieve cfg text_of product k vres tres = (case (vres, tres) of
       (Some vs, Some ts) \<Rightarrow>
         Inr \<lparr>candidates = hybrid_rank cfg text_of product k vs ts, degraded = False\<rparr>
     | (None, Some ts) \<Rightarrow>
         Inr \<lparr>candidates = hybrid_rank cfg text_of product k [] ts, degraded = True\<rparr>
     | (Some vs, None) \<Rightarrow>
         Inr \<lparr>candidates = hybrid_rank cfg text_of product k vs [], degraded = True\<rparr>
     | (None, None) \<Rightarrow> Inl RetrievalBackendError)"

text \<open>Modelled from the spec: the page and the fused score of a candidate, which is
  what a ranking is made of (section 4.4).\<close>

definition ranked_entry :: "FusedCandidate \<Rightarrow> nat \<times> rat" where
  "ranked_entry c = (cand_page c, cand_score c)"

text \<open>Modelled from the spec: the order of step 4 on such entries, as a sort
  key.\<close>

definition entry_key :: "nat \<times> rat \<Rightarrow> rat \<times> nat" where
  "entry_key e = (- snd e, fst e)"

subsection \<open>Retrieval backends and the index\<close>

text \<open>
  Modelled from the spec: a retrieval backend, \<open>search(query, filter, k)\<close> of
  section 9, filtered to a manual id (section 4.4, step 1); \<open>None\<close> when the
  backend is unavailable.
\<close>

type_synonym backend = "string \<Rightarrow> string \<Rightarrow> nat \<Rightarrow> RetrievalHit list option"

text \<open>
  Modelled from the spec: the contract of a backend over the chunks indexed (sections
  1 and 4.4): every hit is a chunk of the store, of the manual asked for, with that
  chunk's page.
\<close>

definition serves :: "Chunk list \<Rightarrow> backend \<Rightarrow> bool" where
  "serves store b = (\<forall>q m n hs. b q m n = Some hs \<longrightarrow>
     (\<forall>h\<in>set hs. hit_manual h = m \<and>
        (\<exists>c\<in>set store. chunk_manual c = m \<and> chunk_id c = hit_chunk h
           \<and> chunk_page c = hit_page h)))"

text \<open>
  Modelled from the spec: a backend that meets the contract, the top \<open>n\<close> chunks of
  the manual by a relevance \<open>rel\<close> (cosine similarity for the vector store, keyword
  relevance for the text store; the spec fixes neither).
\<close>

definition search :: "hit_source \<Rightarrow> (string \<Rightarrow> Chunk \<Rightarrow> rat) \<Rightarrow> Chunk list \<Rightarrow> backend" where
  "search src rel store q m n =
     Some (map (\<lambda>c. \<lparr>hit_chunk = chunk_id c, hit_manual = m, hit_page = chunk_page c,
                      hit_score = rel q c, hit_source = src\<rparr>)
            (take n (rev (sort_key (rel q) (filter (\<lambda>c. chunk_manual c = m) store)))))"

text \<open>Modelled from the spec: the pages indexed for a manual, those of its chunks
  (section 3, the invariant on page numbers).\<close>

definition indexed_pages :: "Chunk list \<Rightarrow> string \<Rightarrow> nat set" where
  "indexed_pages store m = set (map chunk_page (filter (\<lambda>c. chunk_manual c = m) store))"

text \<open>Modelled from the spec: the text of an indexed chunk, by its id.\<close>

definition text_of_chunk :: "Chunk list \<Rightarrow> nat \<Rightarrow> string" where
  "text_of_chunk store i = (case find (\<lambda>c. chunk_id c = i) store of
     None \<Rightarrow> [] | Some c \<Rightarrow> chunk_text c)"

subsection \<open>Context Builder\<close>

text \<open>
  Modelled from the spec: section 4.5. Candidates are taken in ranking order until one
  does not fit in what is left of the budget; a candidate is included whole or not at
  all. The result keeps each included text with its page.
\<close>

fun build_context :: "nat \<Rightarrow> FusedCandidate list \<Rightarrow> FusedCandidate list" where
  "build_context budget [] = []"
| "build_context budget (c # cs) =
     (if length (full_text c) \<le> budget
      then c # build_context (budget - length (full_text c)) cs else [])"

text \<open>Modelled from the spec: the context string handed to the language model.\<close>

definition context_text :: "FusedCandidate list \<Rightarrow> string" where
  "context_text cs = concat (map full_text cs)"

subsection \<open>Answer Synthesizer and Query Orchestrator\<close>

text \<open>Modelled from the spec: the Citation of a candidate (section 3).\<close>

definition to_citation :: "FusedCandidate \<Rightarrow> Citation" where
  "to_citation c = \<lparr>cite_page = cand_page c, cite_product = cand_product c,
     cite_score = Some (cand_score c)\<rparr>"

text \<open>
  Modelled from the spec: section 4.6. \<open>generate\<close> is the language-model
  collaborator, \<open>None\<close> on a timeout or an error. Citations are the candidates
  included in the context whose score exceeds the relevance floor, in ranking order;
  \<open>top_pages\<close> their distinct pages; \<open>manual_sections\<close> the top N candidates.
\<close>

definition synthesize ::
  "config \<Rightarrow> (string \<Rightarrow> string \<Rightarrow> string option) \<Rightarrow> string \<Rightarrow> string \<Rightarrow> string
    \<Rightarrow> FusedCandidate list \<Rightarrow> FusedCandidate list \<Rightarrow> query_error + AnswerResult" where
  "synthesize cfg generate model m q cands included =
     (case generate q (context_text included) of
        None \<Rightarrow> Inl SynthesisError
      | Some reply \<Rightarrow>
          let cites = map to_citation (filter (\<lambda>c. relevance_floor cfg < cand_score c) included)
          in Inr \<lparr>result_answer = reply, result_citations = cites,
                  manual_sections = take (sections_shown cfg) cands, used_model = model,
                  top_pages = remdups (map cite_page cites), manual_id = m\<rparr>)"

text \<open>
  Modelled from the spec: what a query returns to its caller: the AnswerResult and the
  advisory flag of a degraded result set, which a degraded answer carries beside its
  citations (section 4.4, Failure; section 7). Section 3 gives AnswerResult no field
  for the flag, so it travels next to the result.
\<close>

record query_reply =
  reply_result :: AnswerResult
  reply_degraded :: bool

text \<open>
  Modelled from the spec: the query flow of section 2. Both backends are asked for the
  top \<open>2k\<close> of the manual, the Hybrid Retriever fuses them, the Context Builder bounds
  the context, the Answer Synthesizer builds the result, and the Hybrid Retriever's
  warning flag is returned with it.
\<close>

definition answer_query ::
  "config \<Rightarrow> backend \<Rightarrow> backend \<Rightarrow> (nat \<Rightarrow> string) \<Rightarrow> string option
    \<Rightarrow> (string \<Rightarrow> string \<Rightarrow> string option) \<Rightarrow> string \<Rightarrow> string \<Rightarrow> string
    \<Rightarrow> query_error + query_reply" where
  "answer_query cfg vector_store text_store text_of product generate model m q =
     (case hybrid_retrieve cfg text_of product (top_k cfg)
             (vector_store q m (nat (2 * top_k cfg))) (text_store q m (nat (2 * top_k cfg))) of
        Inl e \<Rightarrow> Inl e
      | Inr r \<Rightarrow>
          (case synthesize cfg generate model m q (candidates r)
                  (build_context (context_budget cfg) (candidates r)) of
             Inl e \<Rightarrow> Inl e
           | Inr a \<Rightarrow> Inr \<lparr>reply_result = a, reply_degraded = degraded r\<rparr>))"

subsection \<open>A small index\<close>

text \<open>Modelled from the spec: the default weights 0.6 and 0.4 of section 4.4, with
  sample values for the parameters the spec leaves open.\<close>

definition sample_config :: config where
  "sample_config = \<lparr>w_vector = 3 / 5, w_text = 2 / 5, flat_score = 1, top_k = 2,
     snippet_length = 6, context_budget = 40, relevance_floor = 1 / 4, sections_shown = 1\<rparr>"

text \<open>Modelled from the spec: a Chunk of the examples.\<close>

definition sample_chunk :: "nat \<Rightarrow> string \<Rightarrow> nat \<Rightarrow> string \<Rightarrow> Chunk" where
  "sample_chunk i m p t =
     \<lparr>chunk_id = i, chunk_manual = m, chunk_page = p, chunk_text = t, order_index = i\<rparr>"

text \<open>Modelled from the spec: an index of two manuals; page 4 of the first holds
  the torque specification of the example scenario of section 8.\<close>

definition sample_store :: "Chunk list" where
  "sample_store = [
     sample_chunk 1 ''m1'' 1 ''safety notes'',
     sample_chunk 2 ''m1'' 4 ''torque spec 35 Nm'',
     sample_chunk 3 ''m1'' 4 ''torque table'',
     sample_chunk 4 ''m1'' 7 ''wiring'',
     sample_chunk 5 ''m2'' 9 ''torque of the other product'']"

text \<open>Modelled from the spec: a relevance for the vector store of the examples.\<close>

definition sample_similarity :: "string \<Rightarrow> Chunk \<Rightarrow> rat" where
  "sample_similarity q c = of_nat (chunk_page c) / 10"

text \<open>Modelled from the spec: a relevance for the text store of the examples.\<close>

definition sample_keywords :: "string \<Rightarrow> Chunk \<Rightarrow> rat" where
  "sample_keywords q c = of_nat (length (chunk_text c))"

text \<open>Modelled from the spec: a language model that answers with its context.\<close>

definition sample_generate :: "string \<Rightarrow> string \<Rightarrow> string option" where
  "sample_generate q ctx = Some ctx"

text \<open>Modelled from the spec: a RetrievalHit of the examples, on manual \<open>m1\<close>.\<close>

definition sample_hit :: "hit_source \<Rightarrow> nat \<Rightarrow> nat \<Rightarrow> rat \<Rightarrow> RetrievalHit" where
  "sample_hit src i p s =
     \<lparr>hit_chunk = i, hit_manual = ''m1'', hit_page = p, hit_score = s, hit_source = src\<rparr>"

text \<open>Modelled from the spec: a result set of the vector store; pages 7 and 1 share
  the least score.\<close>

definition sample_vector_hits :: "RetrievalHit list" where
  "sample_vector_hits = [sample_hit Vector 2 4 (9 / 10), sample_hit Vector 4 7 (1 / 2),
     sample_hit Vector 3 4 (7 / 10), sample_hit Vector 1 1 (1 / 2)]"

text \<open>Modelled from the spec: a result set of the text store.\<close>

definition sample_text_hits :: "RetrievalHit list" where
  "sample_text_hits = [sample_hit Lexical 2 4 12, sample_hit Lexical 1 1 3,
     sample_hit Lexical 3 4 8]"

text \<open>Modelled from the spec: the question of the example scenario of section 8.\<close>

definition sample_question :: string where
  "sample_question = ''what is the torque spec''"

section \<open>Properties of the viewer\<close>

declare dec.simps [simp del]

lemma trim_empty_iff: "trim s = [] \<longleftrightarrow> (\<forall>c\<in>set s. js_whitespace c)"
proof -
  let ?d = "dropWhile js_whitespace s"
  have "dropWhile js_whitespace (rev ?d) = [] \<longleftrightarrow> ?d = []"
  proof
    assume a: "dropWhile js_whitespace (rev ?d) = []"
    show "?d = []"
    proof (rule ccontr)
      assume ne: "?d \<noteq> []"
      then have "\<not> js_whitespace (hd ?d)" by (rule hd_dropWhile)
      moreover from ne have "hd ?d \<in> set (rev ?d)" by simp
      moreover from a have "\<forall>x\<in>set (rev ?d). js_whitespace x"
        by (simp only: dropWhile_eq_Nil_conv)
      ultimately show False by blast
    qed
  next
    assume "?d = []"
    then show "dropWhile js_whitespace (rev ?d) = []" by (simp only: rev.simps dropWhile.simps)
  qed
  moreover have "?d = [] \<longleftrightarrow> (\<forall>c\<in>set s. js_whitespace c)"
    by (simp only: dropWhile_eq_Nil_conv)
  ultimately show ?thesis by (simp only: trim_def rev_is_Nil_conv)
qed

lemma pdfUrl_viewer_at: "pdfUrl (viewer_at p n) = utf16 ''/manuals/m1.pdf''"
  by (simp add: pdfUrl_def viewer_at_def initial_state_def)

subsection \<open>Prev and Next\<close>

text \<open>
  C8. Page navigation keeps \<open>1 <= pageNumber <= numPages\<close>: when the invariant
  holds, it holds after pressing Prev and after pressing Next (and after their
  handlers, were they to run on a disabled button). Prev never yields a page below 1
  and is disabled at page 1. Next never yields a page beyond the page count of a loaded
  document, and is disabled while the page count is unknown and at the last page.
  Neither button changes the page count.
\<close>

theorem page_navigation_in_range:
  "(page_in_range st \<longrightarrow>
      page_in_range (press_prev st) \<and> page_in_range (press_next st) \<and>
      page_in_range (prev_onClick st) \<and> page_in_range (next_onClick st))
   \<and> (pageNumber st \<noteq> NaN \<longrightarrow> js_le (Fin 1) (pageNumber (prev_onClick st)))
   \<and> (pageNumber st = Fin 1 \<longrightarrow> prev_disabled st)
   \<and> (numPages st = Some n \<and> num_truthy n \<and> pageNumber st \<noteq> NaN \<longrightarrow>
        js_le (pageNumber (next_onClick st)) n)
   \<and> (numPages st = None \<or> numPages st = Some (pageNumber st) \<longrightarrow> next_disabled st)
   \<and> numPages (press_prev st) = numPages st \<and> numPages (press_next st) = numPages st"
proof -
  have prev_ge: "js_le (Fin 1) (pageNumber (prev_onClick st))" if "pageNumber st \<noteq> NaN"
    using that by (cases "pageNumber st") (auto simp: prev_onClick_def Math_max_def js_minus_def)
  have next_le: "js_le (pageNumber (next_onClick st)) m"
    if "numPages st = Some m" "num_truthy m" "pageNumber st \<noteq> NaN" for m
    using that by (cases "pageNumber st"; cases m)
      (auto simp: next_onClick_def Math_min_def numPages_or_def num_truthy_def)
  have inv: "page_in_range (prev_onClick st) \<and> page_in_range (next_onClick st)"
    if "page_in_range st"
  proof -
    from that obtain m where m: "numPages st = Some m" "js_le (Fin 1) (pageNumber st)"
      "js_le (pageNumber st) m"
      by (auto simp: page_in_range_def split: option.splits)
    then show ?thesis
      by (cases "pageNumber st"; cases m)
        (auto simp: page_in_range_def prev_onClick_def next_onClick_def Math_max_def
          Math_min_def js_minus_def numPages_or_def num_truthy_def)
  qed
  have dis: "next_disabled st" if "numPages st = None \<or> numPages st = Some (pageNumber st)"
    using that by (cases "pageNumber st")
      (auto simp: next_disabled_def numPages_falsy_def numPages_or_def js_ge_def num_truthy_def
         split: if_splits)
  show ?thesis
    using prev_ge next_le inv dis
    by (auto simp: press_prev_def press_next_def prev_disabled_def)
       (auto simp: prev_onClick_def next_onClick_def)
qed

text \<open>On page 3 of 10, on page 1 of 10 and on page 10 of 10.\<close>

theorem page_navigation_in_range_witness:
  "page_in_range (viewer_at 3 10)
   \<and> pageNumber (press_prev (viewer_at 3 10)) = Fin 2 \<and> page_in_range (press_prev (viewer_at 3 10))
   \<and> pageNumber (press_next (viewer_at 3 10)) = Fin 4 \<and> page_in_range (press_next (viewer_at 3 10))
   \<and> js_le (Fin 1) (pageNumber (prev_onClick (viewer_at 3 10)))
   \<and> js_le (pageNumber (next_onClick (viewer_at 3 10))) (Fin 10)
   \<and> prev_disabled (viewer_at 1 10) \<and> press_prev (viewer_at 1 10) = viewer_at 1 10
   \<and> next_disabled (viewer_at 10 10) \<and> press_next (viewer_at 10 10) = viewer_at 10 10"
proof -
  have a: "page_in_range (viewer_at 3 10)" "pageNumber (viewer_at 3 10) \<noteq> NaN"
    "numPages (viewer_at 3 10) = Some (Fin 10)" "num_truthy (Fin 10)"
    by (simp_all add: page_in_range_def viewer_at_def initial_state_def num_truthy_def)
  have b: "pageNumber (viewer_at 1 10) = Fin 1"
    by (simp add: viewer_at_def)
  have c: "numPages (viewer_at 10 10) = Some (pageNumber (viewer_at 10 10))"
    by (simp add: viewer_at_def)
  have vals: "pageNumber (press_prev (viewer_at 3 10)) = Fin 2"
    "pageNumber (press_next (viewer_at 3 10)) = Fin 4"
    by (simp_all add: press_prev_def press_next_def pdfUrl_def utf16_def
        prev_disabled_def next_disabled_def prev_onClick_def next_onClick_def
        numPages_falsy_def numPages_or_def num_truthy_def js_ge_def js_minus_def
        Math_max_def Math_min_def viewer_at_def initial_state_def)
  from a b c vals
    page_navigation_in_range [of "viewer_at 3 10" "Fin 10"]
    page_navigation_in_range [of "viewer_at 1 10" "Fin 10"]
    page_navigation_in_range [of "viewer_at 10 10" "Fin 10"]
  show ?thesis
    by (simp add: press_prev_def press_next_def num_truthy_def)
qed

subsection \<open>The Ask button\<close>

text \<open>
  C10. The Ask button is disabled exactly when the question is empty or made of
  whitespace only, no PDF is selected (in particular when no manual has the selected
  id), or a request is in flight. Pressing a disabled button does not run
  \<open>handleAsk\<close>; when \<open>handleAsk\<close> runs, the state it leaves before the fetch has
  the answer, the citations, the sections and the error cleared and \<open>loading\<close> set,
  so that a second press does nothing.
\<close>

theorem ask_only_when_ready:
  "(ask_disabled st \<longleftrightarrow> (\<forall>c\<in>set (query st). js_whitespace c) \<or> pdfUrl st = [] \<or> loading st)
   \<and> ((\<forall>m\<in>set (manuals st). JStr (id' m) \<noteq> manualId st) \<longrightarrow> pdfUrl st = [])
   \<and> (ask_disabled st \<longrightarrow> press_ask st = None)
   \<and> (\<forall>st'. press_ask st = Some st' \<longrightarrow>
         \<not> ask_disabled st \<and> st' = handleAsk_begin st \<and> press_ask st' = None)
   \<and> answer (handleAsk_begin st) = JStr [] \<and> citations (handleAsk_begin st) = JArr []
   \<and> sections (handleAsk_begin st) = JArr [] \<and> askError (handleAsk_begin st) = JStr []
   \<and> loading (handleAsk_begin st)"
proof -
  have "pdfUrl st = []" if "\<forall>m\<in>set (manuals st). JStr (id' m) \<noteq> manualId st"
  proof -
    from that have "find (\<lambda>m. JStr (id' m) = manualId st) (manuals st) = None"
      by (simp add: find_None_iff)
    then show ?thesis by (simp add: pdfUrl_def)
  qed
  moreover have "loading (handleAsk_begin st)" by (simp add: handleAsk_begin_def)
  then have "ask_disabled (handleAsk_begin st)" by (simp add: ask_disabled_def)
  ultimately show ?thesis
    by (auto simp: ask_disabled_def trim_empty_iff press_ask_def handleAsk_begin_def)
qed

text \<open>A question of two spaces, a real question, a second press while the first
  request is in flight, and a question typed before any manual is listed.\<close>

theorem ask_only_when_ready_witness:
  "press_ask (type_query (utf16 ''  '') (viewer_at 1 10)) = None
   \<and> press_ask (type_query (utf16 ''torque?'') (viewer_at 1 10))
       = Some (handleAsk_begin (type_query (utf16 ''torque?'') (viewer_at 1 10)))
   \<and> press_ask (handleAsk_begin (type_query (utf16 ''torque?'') (viewer_at 1 10))) = None
   \<and> press_ask (type_query (utf16 ''torque?'') initial_state) = None"
proof -
  have blank: "\<forall>c\<in>set (query (type_query (utf16 ''  '') (viewer_at 1 10))). js_whitespace c"
    by (simp add: type_query_def utf16_def js_whitespace_def)
  have ready: "\<not> ask_disabled (type_query (utf16 ''torque?'') (viewer_at 1 10))"
    by (simp add: ask_disabled_def trim_def pdfUrl_def type_query_def viewer_at_def
        initial_state_def utf16_def js_whitespace_def)
  have unlisted: "\<forall>m\<in>set (manuals (type_query (utf16 ''torque?'') initial_state)).
      JStr (id' m) \<noteq> manualId (type_query (utf16 ''torque?'') initial_state)"
    by (simp add: type_query_def initial_state_def)
  from blank ready unlisted
    ask_only_when_ready [of "type_query (utf16 ''  '') (viewer_at 1 10)"]
    ask_only_when_ready [of "type_query (utf16 ''torque?'') (viewer_at 1 10)"]
    ask_only_when_ready [of "type_query (utf16 ''torque?'') initial_state"]
  show ?thesis
    by (simp add: press_ask_def)
qed

subsection \<open>Jumping to a cited page\<close>

text \<open>
  C6. For every citation in the citations list and every manual section among the
  four shown, if its page is the number \<open>p\<close> (a parsed JSON number, hence not
  \<open>NaN\<close>), then its button sets the displayed page number to \<open>max(1, p)\<close> and
  changes nothing else.
\<close>

theorem jump_to_cited_page:
  "\<forall>c \<in> set (citation_buttons st) \<union> set (section_buttons st).
     \<forall>p. get_prop c ''page'' = Inr (JNum p) \<and> p \<noteq> NaN \<longrightarrow>
       jump_onClick P c st = Inr (st\<lparr>pageNumber := Math_max (Fin 1) p\<rparr>)"
proof (intro ballI allI impI)
  fix c p
  assume "get_prop c ''page'' = Inr (JNum p) \<and> p \<noteq> NaN"
  then show "jump_onClick P c st = Inr (st\<lparr>pageNumber := Math_max (Fin 1) p\<rparr>)"
    by (cases p) (auto simp: jump_onClick_def js_or_def num_truthy_def Math_max_def)
qed

lemma answered_citations:
  "citations (answered p) = JArr [JObj [(utf16 ''page'', JNum (Fin p))]]"
  by (simp add: answered_def handleAsk_data_def sample_response_def ask_jump_def utf16_def
      Array_isArray_def js_or_def Let_def on_catch_def split: sum.splits)

lemma answered_sections:
  "sections (answered p) = JArr [JObj [(utf16 ''page'', JNum (Fin p)),
        (utf16 ''snippet'', JStr (utf16 ''torque spec 35 Nm''))]]"
  by (simp add: answered_def handleAsk_data_def sample_response_def ask_jump_def utf16_def
      Array_isArray_def js_or_def Let_def on_catch_def split: sum.splits)

text \<open>The citation of page 7, pressed after Prev has moved the viewer to page 6, and
  the section of a response that names page 0.\<close>

theorem jump_to_cited_page_witness:
  "citation_buttons (answered 7) = [JObj [(utf16 ''page'', JNum (Fin 7))]]
   \<and> jump_onClick sample_P (JObj [(utf16 ''page'', JNum (Fin 7))]) (press_prev (answered 7))
       = Inr ((press_prev (answered 7))\<lparr>pageNumber := Fin 7\<rparr>)
   \<and> section_buttons (answered 0) = [JObj [(utf16 ''page'', JNum (Fin 0)),
        (utf16 ''snippet'', JStr (utf16 ''torque spec 35 Nm''))]]
   \<and> jump_onClick sample_P (JObj [(utf16 ''page'', JNum (Fin 0)),
        (utf16 ''snippet'', JStr (utf16 ''torque spec 35 Nm''))]) (answered 0)
       = Inr ((answered 0)\<lparr>pageNumber := Fin 1\<rparr>)"
proof -
  let ?c = "JObj [(utf16 ''page'', JNum (Fin 7))]"
  let ?s = "JObj [(utf16 ''page'', JNum (Fin 0)),
        (utf16 ''snippet'', JStr (utf16 ''torque spec 35 Nm''))]"
  have same: "citations (press_prev (answered 7)) = citations (answered 7)"
    by (simp add: press_prev_def prev_onClick_def)
  have cb: "citation_buttons (press_prev (answered 7)) = [?c]" "citation_buttons (answered 7) = [?c]"
    by (simp_all add: citation_buttons_def same answered_citations)
  have sb: "section_buttons (answered 0) = [?s]"
    by (simp add: section_buttons_def answered_sections)
  have pc: "get_prop ?c ''page'' = Inr (JNum (Fin 7)) \<and> Fin 7 \<noteq> NaN"
    by (simp add: utf16_def)
  have ps: "get_prop ?s ''page'' = Inr (JNum (Fin 0)) \<and> Fin 0 \<noteq> NaN"
    by (simp add: utf16_def)
  from cb have mc: "?c \<in> set (citation_buttons (press_prev (answered 7)))
      \<union> set (section_buttons (press_prev (answered 7)))" by simp
  from sb have ms: "?s \<in> set (citation_buttons (answered 0)) \<union> set (section_buttons (answered 0))"
    by simp
  from jump_to_cited_page [rule_format, OF mc pc, of sample_P]
    jump_to_cited_page [rule_format, OF ms ps, of sample_P] cb sb
  show ?thesis by (simp add: Math_max_def)
qed

subsection \<open>The page shown after an answer\<close>

lemma get_prop_total:
  "v \<noteq> JNull \<Longrightarrow> v \<noteq> JUndefined \<Longrightarrow> get_prop v name = Inr (get_opt v name)"
  by (cases v) (auto simp: get_opt_def)

lemma index0_total: "truthy v \<Longrightarrow> \<exists>x. index0 v = Inr x"
  by (cases v) auto

text \<open>On data other than \<open>null\<close> the jump expression throws nothing, and its value
  is truthy.\<close>

lemma ask_jump_total:
  assumes "data \<noteq> JNull" "data \<noteq> JUndefined"
  shows "\<exists>j. ask_jump data = Inr j \<and> truthy j"
proof -
  obtain tp cs where tp: "get_prop data ''top_pages'' = Inr tp"
    and cs: "get_prop data ''citations'' = Inr cs"
    using assms get_prop_total by blast
  show ?thesis
  proof (cases "Array_isArray tp")
    case True
    then obtain xs where "tp = JArr xs" by (cases tp) (auto simp: Array_isArray_def)
    then show ?thesis using tp cs index0_total [of cs]
      by (cases xs) (auto simp: ask_jump_def Array_isArray_def js_or_def num_truthy_def)
  next
    case False
    then show ?thesis using tp cs index0_total [of cs]
      by (auto simp: ask_jump_def js_or_def num_truthy_def)
  qed
qed

lemma ask_jump_not_null: "ask_jump data = Inr j \<Longrightarrow> data \<noteq> JNull \<and> data \<noteq> JUndefined"
  by (auto simp: ask_jump_def)

lemma clamp_ge_1: "js_le (Fin 1) (Math_max (Fin 1) (num_or n (Fin 1)))"
  by (cases n) (auto simp: Math_max_def num_or_def num_truthy_def)

lemma clamp_num: "num_truthy n \<Longrightarrow> Math_max (Fin 1) (num_or n (Fin 1)) = Math_max (Fin 1) n"
  by (simp add: num_or_def)

lemma is_integer_max: "is_integer n \<Longrightarrow> is_integer (Math_max (Fin 1) n)"
  by (cases n) (auto simp: Math_max_def)

text \<open>The page set when \<open>Number(jump)\<close> returns, and the page kept when a statement
  of the \<open>try\<close> block throws.\<close>

lemma handleAsk_data_page:
  assumes "ask_jump data = Inr j" "to_number P j = Inr n"
  shows "pageNumber (handleAsk_data P E st data) = Math_max (Fin 1) (num_or n (Fin 1))"
proof -
  from assms(1) have "data \<noteq> JNull" "data \<noteq> JUndefined"
    using ask_jump_not_null by blast+
  with assms show ?thesis
    by (simp add: handleAsk_data_def get_prop_total Let_def)
qed

lemma handleAsk_data_thrown:
  assumes "data = JNull \<or> data = JUndefined \<or> (ask_jump data = Inr j \<and> to_number P j = Inl e)"
  shows "pageNumber (handleAsk_data P E st data) = pageNumber st
    \<and> \<not> loading (handleAsk_data P E st data)"
proof -
  consider "data = JNull \<or> data = JUndefined" | "ask_jump data = Inr j \<and> to_number P j = Inl e"
    using assms by blast
  then show ?thesis
  proof cases
    case 1
    then show ?thesis by (auto simp: handleAsk_data_def on_catch_def)
  next
    case 2
    then have "data \<noteq> JNull" "data \<noteq> JUndefined"
      using ask_jump_not_null by blast+
    with 2 show ?thesis
      by (simp add: handleAsk_data_def get_prop_total Let_def on_catch_def)
  qed
qed

text \<open>The three branches of the jump expression.\<close>

lemma jump_cases:
  "(get_prop data ''top_pages'' = Inr (JArr (x # xs)) \<and> truthy x \<longrightarrow> ask_jump data = Inr x)
   \<and> (get_prop data ''top_pages'' = Inr tp \<and> no_top_page tp
        \<and> get_prop data ''citations'' = Inr cs \<and> truthy cs \<and> index0 cs = Inr c
        \<and> truthy (get_opt c ''page'') \<longrightarrow> ask_jump data = Inr (get_opt c ''page''))
   \<and> (get_prop data ''top_pages'' = Inr tp \<and> no_top_page tp
        \<and> get_prop data ''citations'' = Inr cs
        \<and> (\<not> truthy cs \<or> (index0 cs = Inr c \<and> \<not> truthy (get_opt c ''page''))) \<longrightarrow>
      ask_jump data = Inr (JNum (Fin 1)))"
proof (intro conjI impI)
  assume "get_prop data ''top_pages'' = Inr (JArr (x # xs)) \<and> truthy x"
  then show "ask_jump data = Inr x" by (simp add: ask_jump_def Array_isArray_def)
next
  assume a: "get_prop data ''top_pages'' = Inr tp \<and> no_top_page tp
        \<and> get_prop data ''citations'' = Inr cs \<and> truthy cs \<and> index0 cs = Inr c
        \<and> truthy (get_opt c ''page'')"
  then show "ask_jump data = Inr (get_opt c ''page'')"
    by (cases tp) (auto simp: ask_jump_def Array_isArray_def no_top_page_def js_or_def
        split: list.splits)
next
  assume a: "get_prop data ''top_pages'' = Inr tp \<and> no_top_page tp
        \<and> get_prop data ''citations'' = Inr cs
        \<and> (\<not> truthy cs \<or> (index0 cs = Inr c \<and> \<not> truthy (get_opt c ''page'')))"
  then show "ask_jump data = Inr (JNum (Fin 1))"
    by (cases tp) (auto simp: ask_jump_def Array_isArray_def no_top_page_def js_or_def
        split: list.splits)
qed

lemma to_number_throws: "(\<exists>e. to_number P j = Inl e) = no_primitive j"
  by (cases j) auto

lemma clamp_low: "\<not> num_truthy n \<or> js_le n (Fin 1) \<Longrightarrow> Math_max (Fin 1) (num_or n (Fin 1)) = Fin 1"
  by (cases n) (auto simp: Math_max_def num_or_def num_truthy_def)

text \<open>
  C9, as the code has it. After a response whose body parsed to data other than
  \<open>null\<close>, the jump expression is evaluated without throwing and its value is
  truthy: it is \<open>top_pages[0]\<close> when \<open>top_pages\<close> is an array whose first element
  is truthy; when \<open>top_pages\<close> gives no page (it is not an array, it is empty, or its
  first element is falsy) it is \<open>citations[0]?.page\<close> if \<open>citations\<close> is truthy
  and that page is truthy, and 1 if not. When \<open>Number(jump)\<close> returns \<open>n\<close>, the
  page number becomes \<open>max(1, n || 1)\<close>, a number at least 1 (so never \<open>NaN\<close>),
  which is 1 when \<open>n\<close> is \<open>NaN\<close>, zero or at most 1; a jump value that is a
  truthy number \<open>n\<close> gives \<open>max(1, n)\<close>, not rounded: an integer when \<open>n\<close> is
  one. \<open>Number(jump)\<close> throws exactly when the jump value is an object with an own
  property \<open>toString\<close>, or an array that holds one, directly or inside nested
  arrays; then, and when the body is
  \<open>null\<close>, the \<open>catch\<close> block runs, the page number stays what it was before the
  response, and \<open>loading\<close> is cleared.
\<close>

theorem ask_page_at_least_one:
  "(data \<noteq> JNull \<and> data \<noteq> JUndefined \<longrightarrow> (\<exists>j. ask_jump data = Inr j \<and> truthy j))
   \<and> (\<forall>x xs. get_prop data ''top_pages'' = Inr (JArr (x # xs)) \<and> truthy x \<longrightarrow>
        ask_jump data = Inr x)
   \<and> (\<forall>tp cs c. get_prop data ''top_pages'' = Inr tp \<and> no_top_page tp
        \<and> get_prop data ''citations'' = Inr cs \<and> truthy cs \<and> index0 cs = Inr c
        \<and> truthy (get_opt c ''page'') \<longrightarrow> ask_jump data = Inr (get_opt c ''page''))
   \<and> (\<forall>tp cs c. get_prop data ''top_pages'' = Inr tp \<and> no_top_page tp
        \<and> get_prop data ''citations'' = Inr cs
        \<and> (\<not> truthy cs \<or> (index0 cs = Inr c \<and> \<not> truthy (get_opt c ''page''))) \<longrightarrow>
        ask_jump data = Inr (JNum (Fin 1)))
   \<and> (\<forall>j n. ask_jump data = Inr j \<and> to_number P j = Inr n \<longrightarrow>
        pageNumber (handleAsk_data P E st data) = Math_max (Fin 1) (num_or n (Fin 1))
        \<and> js_le (Fin 1) (pageNumber (handleAsk_data P E st data))
        \<and> (\<not> num_truthy n \<or> js_le n (Fin 1) \<longrightarrow>
             pageNumber (handleAsk_data P E st data) = Fin 1))
   \<and> (\<forall>n. ask_jump data = Inr (JNum n) \<and> num_truthy n \<longrightarrow>
        pageNumber (handleAsk_data P E st data) = Math_max (Fin 1) n
        \<and> (is_integer n \<longrightarrow> is_integer (pageNumber (handleAsk_data P E st data))))
   \<and> (\<forall>j. ask_jump data = Inr j \<longrightarrow> (\<exists>e. to_number P j = Inl e) = no_primitive j)
   \<and> (\<forall>j e. data = JNull \<or> data = JUndefined
          \<or> (ask_jump data = Inr j \<and> to_number P j = Inl e) \<longrightarrow>
        pageNumber (handleAsk_data P E st data) = pageNumber st
        \<and> \<not> loading (handleAsk_data P E st data))"
proof -
  let ?H = "handleAsk_data P E st data"
  have A: "data \<noteq> JNull \<and> data \<noteq> JUndefined \<longrightarrow> (\<exists>j. ask_jump data = Inr j \<and> truthy j)"
    using ask_jump_total by blast
  have B: "\<forall>j n. ask_jump data = Inr j \<and> to_number P j = Inr n \<longrightarrow>
        pageNumber ?H = Math_max (Fin 1) (num_or n (Fin 1))
        \<and> js_le (Fin 1) (pageNumber ?H)
        \<and> (\<not> num_truthy n \<or> js_le n (Fin 1) \<longrightarrow> pageNumber ?H = Fin 1)"
  proof (intro allI impI)
    fix j n
    assume "ask_jump data = Inr j \<and> to_number P j = Inr n"
    then have p: "pageNumber ?H = Math_max (Fin 1) (num_or n (Fin 1))"
      using handleAsk_data_page by blast
    show "pageNumber ?H = Math_max (Fin 1) (num_or n (Fin 1))
        \<and> js_le (Fin 1) (pageNumber ?H)
        \<and> (\<not> num_truthy n \<or> js_le n (Fin 1) \<longrightarrow> pageNumber ?H = Fin 1)"
      unfolding p using clamp_ge_1 [of n] clamp_low [of n] by blast
  qed
  have C: "\<forall>n. ask_jump data = Inr (JNum n) \<and> num_truthy n \<longrightarrow>
        pageNumber ?H = Math_max (Fin 1) n \<and> (is_integer n \<longrightarrow> is_integer (pageNumber ?H))"
  proof (intro allI impI)
    fix n
    assume a: "ask_jump data = Inr (JNum n) \<and> num_truthy n"
    then have "pageNumber ?H = Math_max (Fin 1) (num_or n (Fin 1))"
      using handleAsk_data_page [of data "JNum n" P n] by simp
    with a have p: "pageNumber ?H = Math_max (Fin 1) n" by (simp add: clamp_num)
    show "pageNumber ?H = Math_max (Fin 1) n \<and> (is_integer n \<longrightarrow> is_integer (pageNumber ?H))"
      unfolding p using is_integer_max [of n] by blast
  qed
  have D: "\<forall>j. ask_jump data = Inr j \<longrightarrow> (\<exists>e. to_number P j = Inl e) = no_primitive j"
    using to_number_throws by blast
  have F: "\<forall>j e. data = JNull \<or> data = JUndefined
          \<or> (ask_jump data = Inr j \<and> to_number P j = Inl e) \<longrightarrow>
        pageNumber ?H = pageNumber st \<and> \<not> loading ?H"
    using handleAsk_data_thrown by blast
  have G: "(\<forall>x xs. get_prop data ''top_pages'' = Inr (JArr (x # xs)) \<and> truthy x \<longrightarrow>
        ask_jump data = Inr x)
   \<and> (\<forall>tp cs c. get_prop data ''top_pages'' = Inr tp \<and> no_top_page tp
        \<and> get_prop data ''citations'' = Inr cs \<and> truthy cs \<and> index0 cs = Inr c
        \<and> truthy (get_opt c ''page'') \<longrightarrow> ask_jump data = Inr (get_opt c ''page''))
   \<and> (\<forall>tp cs c. get_prop data ''top_pages'' = Inr tp \<and> no_top_page tp
        \<and> get_prop data ''citations'' = Inr cs
        \<and> (\<not> truthy cs \<or> (index0 cs = Inr c \<and> \<not> truthy (get_opt c ''page''))) \<longrightarrow>
        ask_jump data = Inr (JNum (Fin 1)))"
    using jump_cases [of data] by blast
  note G1 = G [THEN conjunct1] and G2 = G [THEN conjunct2, THEN conjunct1]
    and G3 = G [THEN conjunct2, THEN conjunct2]
  show ?thesis by (intro conjI) (rule A G1 G2 G3 B C D F)+
qed

text \<open>Responses that name page 4 and page -3; a body \<open>null\<close>; a body whose first
  top page has no primitive value, received on page 3 and on a page that is \<open>NaN\<close>;
  a first top page that is the string \<open>"5"\<close>, on a runtime that reads every string as
  \<open>NaN\<close>; a response with a citation of page 9 and no \<open>top_pages\<close>; and an empty
  object.\<close>

theorem ask_page_at_least_one_witness:
  "pageNumber (answered 4) = Fin 4 \<and> is_integer (pageNumber (answered 4))
   \<and> js_le (Fin 1) (pageNumber (answered 4))
   \<and> pageNumber (answered (- 3)) = Fin 1
   \<and> pageNumber (handleAsk_data sample_P sample_E (viewer_at 3 10) JNull) = Fin 3
   \<and> ask_jump sample_unconvertible = Inr (JObj [(utf16 ''toString'', JNum (Fin 1))])
   \<and> pageNumber (handleAsk_data sample_P sample_E (viewer_at 3 10) sample_unconvertible) = Fin 3
   \<and> \<not> loading (handleAsk_data sample_P sample_E (viewer_at 3 10) sample_unconvertible)
   \<and> pageNumber (handleAsk_data sample_P sample_E ((viewer_at 3 10)\<lparr>pageNumber := NaN\<rparr>)
        sample_unconvertible) = NaN
   \<and> pageNumber (handleAsk_data sample_P sample_E (viewer_at 3 10)
        (JObj [(utf16 ''top_pages'', JArr [JStr (utf16 ''5'')])])) = Fin 1
   \<and> pageNumber (handleAsk_data sample_P sample_E (viewer_at 3 10)
        (JObj [(utf16 ''citations'', JArr [JObj [(utf16 ''page'', JNum (Fin 9))]])])) = Fin 9
   \<and> pageNumber (handleAsk_data sample_P sample_E (viewer_at 3 10) (JObj [])) = Fin 1
   \<and> (\<exists>j. ask_jump (JObj []) = Inr j \<and> truthy j)"
proof -
  let ?st = "handleAsk_begin (viewer_at 1 10)"
  let ?v = "viewer_at 3 10"
  let ?o = "JObj [(utf16 ''toString'', JNum (Fin 1))]"
  let ?s = "JObj [(utf16 ''top_pages'', JArr [JStr (utf16 ''5'')])]"
  let ?d = "JObj [(utf16 ''citations'', JArr [JObj [(utf16 ''page'', JNum (Fin 9))]])]"
  note c1 = conjunct1 and c2 = conjunct2
  note thm4 = ask_page_at_least_one [of "sample_response 4" sample_P sample_E ?st]
  note thm3 = ask_page_at_least_one [of "sample_response (- 3)" sample_P sample_E ?st]
  note thmn = ask_page_at_least_one [of JNull sample_P sample_E ?v]
  note thmu = ask_page_at_least_one [of sample_unconvertible sample_P sample_E ?v]
  note thmu' = ask_page_at_least_one [of sample_unconvertible sample_P sample_E
      "?v\<lparr>pageNumber := NaN\<rparr>"]
  note thms = ask_page_at_least_one [of ?s sample_P sample_E ?v]
  note thmd = ask_page_at_least_one [of ?d sample_P sample_E ?v]
  note thme = ask_page_at_least_one [of "JObj []" sample_P sample_E ?v]
  have tp: "get_prop (sample_response p) ''top_pages'' = Inr (JArr (JNum (Fin p) # []))" for p
    by (simp add: sample_response_def utf16_def)
  have j4: "ask_jump (sample_response 4) = Inr (JNum (Fin 4))"
    using thm4 [THEN c2, THEN c1, rule_format, of "JNum (Fin 4)" "[]"]
    by (simp add: tp num_truthy_def)
  have j3: "ask_jump (sample_response (- 3)) = Inr (JNum (Fin (- 3)))"
    using thm3 [THEN c2, THEN c1, rule_format, of "JNum (Fin (- 3))" "[]"]
    by (simp add: tp num_truthy_def)
  have p4: "pageNumber (answered 4) = Fin 4 \<and> is_integer (pageNumber (answered 4))"
    using thm4 [THEN c2, THEN c2, THEN c2, THEN c2, THEN c2, THEN c1, rule_format, of "Fin 4"] j4
    by (simp add: answered_def Math_max_def num_truthy_def)
  have g4: "js_le (Fin 1) (pageNumber (answered 4))"
    using thm4 [THEN c2, THEN c2, THEN c2, THEN c2, THEN c1, rule_format,
        of "JNum (Fin 4)" "Fin 4"] j4
    by (simp add: answered_def Math_max_def num_or_def num_truthy_def)
  have p3: "pageNumber (answered (- 3)) = Fin 1"
    using thm3 [THEN c2, THEN c2, THEN c2, THEN c2, THEN c1, rule_format,
        of "JNum (Fin (- 3))" "Fin (- 3)"] j3
    by (simp add: answered_def Math_max_def num_or_def num_truthy_def)
  have pn: "pageNumber (handleAsk_data sample_P sample_E ?v JNull) = Fin 3"
    using thmn [THEN c2, THEN c2, THEN c2, THEN c2, THEN c2, THEN c2, THEN c2, rule_format]
    by (simp add: viewer_at_def)
  have ju: "ask_jump sample_unconvertible = Inr ?o"
    using thmu [THEN c2, THEN c1, rule_format, of ?o "[]"]
    by (simp add: sample_unconvertible_def utf16_def)
  have "(\<exists>e. to_number sample_P ?o = Inl e) = no_primitive ?o"
    using thmu [THEN c2, THEN c2, THEN c2, THEN c2, THEN c2, THEN c2, THEN c1, rule_format, OF ju] .
  then obtain e where tu: "to_number sample_P ?o = Inl e" by (auto simp: utf16_def)
  have pu: "pageNumber (handleAsk_data sample_P sample_E ?v sample_unconvertible) = Fin 3
      \<and> \<not> loading (handleAsk_data sample_P sample_E ?v sample_unconvertible)"
    using thmu [THEN c2, THEN c2, THEN c2, THEN c2, THEN c2, THEN c2, THEN c2, rule_format,
        of ?o e] ju tu
    by (simp add: viewer_at_def)
  have pu': "pageNumber (handleAsk_data sample_P sample_E (?v\<lparr>pageNumber := NaN\<rparr>)
        sample_unconvertible) = NaN"
    using thmu' [THEN c2, THEN c2, THEN c2, THEN c2, THEN c2, THEN c2, THEN c2, rule_format,
        of ?o e] ju tu
    by simp
  have js: "ask_jump ?s = Inr (JStr (utf16 ''5''))"
    using thms [THEN c2, THEN c1, rule_format, of "JStr (utf16 ''5'')" "[]"]
    by (simp add: utf16_def)
  have ps: "pageNumber (handleAsk_data sample_P sample_E ?v ?s) = Fin 1"
    using thms [THEN c2, THEN c2, THEN c2, THEN c2, THEN c1, rule_format,
        of "JStr (utf16 ''5'')" NaN] js
    by (simp add: sample_P_def Math_max_def num_or_def num_truthy_def)
  have jd: "ask_jump ?d = Inr (JNum (Fin 9))"
    using thmd [THEN c2, THEN c2, THEN c1, rule_format, of JUndefined
        "JArr [JObj [(utf16 ''page'', JNum (Fin 9))]]" "JObj [(utf16 ''page'', JNum (Fin 9))]"]
    by (simp add: utf16_def no_top_page_def get_opt_def num_truthy_def)
  have pd: "pageNumber (handleAsk_data sample_P sample_E ?v ?d) = Fin 9"
    using thmd [THEN c2, THEN c2, THEN c2, THEN c2, THEN c2, THEN c1, rule_format, of "Fin 9"] jd
    by (simp add: Math_max_def num_truthy_def)
  have je: "ask_jump (JObj []) = Inr (JNum (Fin 1))"
    using thme [THEN c2, THEN c2, THEN c2, THEN c1, rule_format, of JUndefined JUndefined]
    by (simp add: no_top_page_def)
  have pe: "pageNumber (handleAsk_data sample_P sample_E ?v (JObj [])) = Fin 1"
    using thme [THEN c2, THEN c2, THEN c2, THEN c2, THEN c1, rule_format,
        of "JNum (Fin 1)" "Fin 1"] je
    by (simp add: Math_max_def num_or_def num_truthy_def)
  have ex: "\<exists>j. ask_jump (JObj []) = Inr j \<and> truthy j"
    using thme [THEN c1] by simp
  from p4 g4 p3 pn ju pu pu' ps pd pe ex show ?thesis by simp
qed

text \<open>
  C9 as stated fails: the page number need not be an integer. A response of the
  declared type whose \<open>top_pages\<close> is \<open>[2.5]\<close> leaves the viewer on page 2.5.
\<close>

theorem ask_page_fraction_counterexample:
  "pageNumber (answered (5 / 2)) = Fin (5 / 2) \<and> \<not> is_integer (pageNumber (answered (5 / 2)))"
proof -
  have "\<lfloor>5 / 2 :: rat\<rfloor> = 2" by (simp add: floor_eq_iff)
  then show ?thesis
    by (simp add: answered_def handleAsk_data_def sample_response_def ask_jump_def utf16_def
        Array_isArray_def js_or_def num_or_def num_truthy_def Math_max_def handleAsk_begin_def
        Let_def)
qed

section \<open>Properties of the retrieval and answer engine\<close>

subsection \<open>Ranking\<close>

lemma normalize_pages: "map hit_page (normalize f hs) = map hit_page hs"
  by (simp add: normalize_def Let_def comp_def)

lemma fuse_pages:
  "map cand_page (fuse cfg text_of product vs ts) = remdups (map hit_page (vs @ ts))"
  by (simp add: fuse_def Let_def comp_def normalize_pages)

lemma distinct_fuse: "distinct (map cand_page (fuse cfg text_of product vs ts))"
  by (simp only: fuse_pages distinct_remdups)

lemma distinct_pages_sort_key:
  "distinct (map cand_page (sort_key rank_key xs)) = distinct (map cand_page xs)"
proof -
  have "mset (map cand_page (sort_key rank_key xs)) = mset (map cand_page xs)"
    by simp
  then show ?thesis by (rule mset_eq_imp_distinct_iff)
qed

lemma ranked_sort_key:
  assumes "distinct (map cand_page xs)"
  shows "sorted_wrt ranks_before (sort_key rank_key xs)"
proof -
  let ?ys = "sort_key rank_key xs"
  have s: "sorted_wrt (\<lambda>a b. rank_key a \<le> rank_key b) ?ys"
    using sorted_sort_key [of rank_key xs] by (simp only: sorted_map)
  have d: "distinct (map cand_page ?ys)"
    using assms by (simp only: distinct_pages_sort_key)
  show ?thesis
    unfolding sorted_wrt_iff_nth_less
  proof (intro allI impI)
    fix i j assume ij: "i < j" "j < length ?ys"
    then have "rank_key (?ys ! i) \<le> rank_key (?ys ! j)"
      using s by (simp add: sorted_wrt_iff_nth_less)
    moreover have "cand_page (?ys ! i) \<noteq> cand_page (?ys ! j)"
      using d ij nth_eq_iff_index_eq [of "map cand_page ?ys" i j] by simp
    ultimately show "ranks_before (?ys ! i) (?ys ! j)"
      by (auto simp: ranks_before_def rank_key_def)
  qed
qed

lemma ranks_before_desc: "ranks_before a b \<Longrightarrow> cand_score b \<le> cand_score a"
  by (auto simp: ranks_before_def)

lemma hybrid_rank_ranked:
  "length (hybrid_rank cfg text_of product k vs ts) \<le> nat k
   \<and> sorted_wrt ranks_before (hybrid_rank cfg text_of product k vs ts)"
  by (simp add: hybrid_rank_def ranked_sort_key distinct_fuse)

lemma lowest_Min: "xs \<noteq> [] \<Longrightarrow> lowest xs = Min (set xs)"
proof (cases xs)
  case (Cons a r)
  have "fold min r a = Min (set (a # r))" by (simp only: Min.set_eq_fold)
  with Cons show ?thesis by (simp add: lowest_def)
qed simp

lemma highest_Max: "xs \<noteq> [] \<Longrightarrow> highest xs = Max (set xs)"
proof (cases xs)
  case (Cons a r)
  have "fold max r a = Max (set (a # r))" by (simp only: Max.set_eq_fold)
  with Cons show ?thesis by (simp add: highest_def)
qed simp

lemma lowest_perm: "mset xs = mset ys \<Longrightarrow> lowest xs = lowest ys"
proof -
  assume a: "mset xs = mset ys"
  then have s: "set xs = set ys" by (rule mset_eq_setD)
  show ?thesis
  proof (cases "xs = []")
    case True with a show ?thesis by simp
  next
    case False
    with s have "ys \<noteq> []" by auto
    with False s show ?thesis by (simp add: lowest_Min)
  qed
qed

lemma highest_perm: "mset xs = mset ys \<Longrightarrow> highest xs = highest ys"
proof -
  assume a: "mset xs = mset ys"
  then have s: "set xs = set ys" by (rule mset_eq_setD)
  show ?thesis
  proof (cases "xs = []")
    case True with a show ?thesis by simp
  next
    case False
    with s have "ys \<noteq> []" by auto
    with False s show ?thesis by (simp add: highest_Max)
  qed
qed

lemma normalize_perm:
  assumes "mset hs' = mset hs"
  shows "mset (normalize f hs') = mset (normalize f hs)"
proof -
  from assms have "mset (map hit_score hs') = mset (map hit_score hs)" by simp
  then have "lowest (map hit_score hs') = lowest (map hit_score hs)"
    "highest (map hit_score hs') = highest (map hit_score hs)"
    by (rule lowest_perm, rule highest_perm)
  with assms show ?thesis by (simp add: normalize_def Let_def)
qed

text \<open>The best score of a page, read off the set of hits.\<close>

lemma best_score_Max:
  "best_score p hs =
     (if \<exists>h\<in>set hs. hit_page h = p
      then Max (hit_score ` {h \<in> set hs. hit_page h = p}) else 0)"
proof (cases "filter (\<lambda>h. hit_page h = p) hs")
  case Nil
  then have "\<not> (\<exists>h\<in>set hs. hit_page h = p)" by (simp add: filter_empty_conv)
  with Nil show ?thesis by (simp add: best_score_def)
next
  case (Cons h r)
  then have "h \<in> set (filter (\<lambda>h. hit_page h = p) hs)" by simp
  then have ex: "\<exists>h\<in>set hs. hit_page h = p" by auto
  have "fold max (map hit_score r) (hit_score h) = Max (set (map hit_score (h # r)))"
    by (simp only: Max.set_eq_fold list.map)
  also have "\<dots> = Max (hit_score ` set (filter (\<lambda>h. hit_page h = p) hs))"
    by (simp add: Cons)
  also have "set (filter (\<lambda>h. hit_page h = p) hs) = {h \<in> set hs. hit_page h = p}"
    by simp
  finally show ?thesis using ex Cons by (simp add: best_score_def)
qed

lemma best_score_perm: "mset hs' = mset hs \<Longrightarrow> best_score p hs' = best_score p hs"
proof -
  assume "mset hs' = mset hs"
  then have "set hs' = set hs" by (rule mset_eq_setD)
  then show ?thesis by (simp only: best_score_Max)
qed

lemma inj_entry_key: "inj_on entry_key A"
  by (auto simp: inj_on_def entry_key_def)

lemma entry_key_ranked: "entry_key (ranked_entry c) = rank_key c"
  by (simp add: entry_key_def ranked_entry_def rank_key_def)

lemma fuse_entries:
  "map ranked_entry (fuse cfg text_of product vs ts) =
     map (\<lambda>p. (p, w_vector cfg * best_score p (normalize (flat_score cfg) vs)
                  + w_text cfg * best_score p (normalize (flat_score cfg) ts)))
       (remdups (map hit_page (vs @ ts)))"
  by (simp add: fuse_def Let_def comp_def ranked_entry_def normalize_pages)

lemma remdups_perm: "set xs = set ys \<Longrightarrow> mset (remdups xs) = mset (remdups ys)"
  using set_eq_iff_mset_eq_distinct [of "remdups xs" "remdups ys"] by simp

lemma fuse_entries_perm:
  assumes "mset vs' = mset vs" "mset ts' = mset ts"
  shows "mset (map ranked_entry (fuse cfg text_of product vs' ts'))
       = mset (map ranked_entry (fuse cfg text_of product vs ts))"
proof -
  have b: "best_score p (normalize f vs') = best_score p (normalize f vs)"
    "best_score p (normalize f ts') = best_score p (normalize f ts)" for p f
    by (rule best_score_perm, rule normalize_perm, rule assms(1))
      (rule best_score_perm, rule normalize_perm, rule assms(2))
  have "set (map hit_page (vs' @ ts')) = set (map hit_page (vs @ ts))"
    using assms [THEN mset_eq_setD] by simp
  then have "mset (remdups (map hit_page (vs' @ ts'))) = mset (remdups (map hit_page (vs @ ts)))"
    by (rule remdups_perm)
  then show ?thesis
    by (simp only: fuse_entries b mset_map)
qed

lemma entries_sort_key:
  "map ranked_entry (sort_key rank_key F) = sort_key entry_key (map ranked_entry F)"
proof (rule sort_key_inj_key_eq [symmetric])
  show "mset (map ranked_entry F) = mset (map ranked_entry (sort_key rank_key F))"
    by simp
  show "inj_on entry_key (set (map ranked_entry F))" by (rule inj_entry_key)
  show "sorted (map entry_key (map ranked_entry (sort_key rank_key F)))"
    by (simp add: comp_def entry_key_ranked)
qed

lemma sort_key_entries_perm:
  assumes "mset X' = mset X"
  shows "sort_key entry_key X' = sort_key entry_key X"
proof (rule sort_key_inj_key_eq)
  show "mset X' = mset (sort_key entry_key X)" using assms by simp
  show "inj_on entry_key (set X')" by (rule inj_entry_key)
  show "sorted (map entry_key (sort_key entry_key X))" by simp
qed

lemma hybrid_rank_perm:
  assumes "mset vs' = mset vs" "mset ts' = mset ts"
  shows "map ranked_entry (hybrid_rank cfg text_of product k vs' ts')
       = map ranked_entry (hybrid_rank cfg text_of product k vs ts)"
proof -
  have e: "map ranked_entry (hybrid_rank cfg text_of product k xs ys)
      = take (nat k) (sort_key entry_key (map ranked_entry (fuse cfg text_of product xs ys)))"
    for xs ys
    by (simp only: hybrid_rank_def take_map [symmetric] entries_sort_key)
  show ?thesis
    by (simp only: e sort_key_entries_perm [OF fuse_entries_perm [OF assms]])
qed

lemma inj_rank_key:
  assumes "distinct (map cand_page F)"
  shows "inj_on rank_key (set F)"
proof (rule inj_onI)
  fix a b assume ab: "a \<in> set F" "b \<in> set F" "rank_key a = rank_key b"
  then have "cand_page a = cand_page b" by (simp add: rank_key_def)
  moreover from assms have "inj_on cand_page (set F)" by (simp add: distinct_map)
  ultimately show "a = b" using ab by (auto dest: inj_onD)
qed

lemma ranks_before_key: "ranks_before a b \<Longrightarrow> rank_key a \<le> rank_key b"
  by (auto simp: ranks_before_def rank_key_def)

lemma ranking_unique:
  assumes "mset ys = mset (fuse cfg text_of product vs ts)" "sorted_wrt ranks_before ys"
  shows "take (nat k) ys = hybrid_rank cfg text_of product k vs ts"
proof -
  have "sort_key rank_key (fuse cfg text_of product vs ts) = ys"
  proof (rule sort_key_inj_key_eq)
    show "mset (fuse cfg text_of product vs ts) = mset ys" using assms(1) by simp
    show "inj_on rank_key (set (fuse cfg text_of product vs ts))"
      by (rule inj_rank_key [OF distinct_fuse])
    from assms(2) have "sorted_wrt (\<lambda>a b. rank_key a \<le> rank_key b) ys"
      by (rule sorted_wrt_mono_rel [rotated]) (simp add: ranks_before_key)
    then show "sorted (map rank_key ys)" by (simp only: sorted_map)
  qed
  then show ?thesis by (simp add: hybrid_rank_def)
qed

text \<open>
  C3. Whatever the two backends returned, the candidates the Hybrid Retriever returns
  are at most \<open>k\<close> (none when \<open>k\<close> is not positive), stand in descending order of
  fused score, and candidates of equal score stand in ascending order of page: each
  candidate ranks strictly before every later one in the order of step 4.
\<close>

theorem hybrid_retriever_ranked:
  "hybrid_retrieve cfg text_of product k vres tres = Inr r \<Longrightarrow>
     length (candidates r) \<le> nat k
     \<and> sorted_wrt (\<lambda>a b. cand_score b \<le> cand_score a) (candidates r)
     \<and> sorted_wrt (\<lambda>a b. cand_score a = cand_score b \<longrightarrow> cand_page a < cand_page b) (candidates r)
     \<and> sorted_wrt ranks_before (candidates r)"
proof -
  assume a: "hybrid_retrieve cfg text_of product k vres tres = Inr r"
  then obtain vs ts where c: "candidates r = hybrid_rank cfg text_of product k vs ts"
    by (auto simp: hybrid_retrieve_def split: option.splits)
  have r: "sorted_wrt ranks_before (candidates r)" and l: "length (candidates r) \<le> nat k"
    using hybrid_rank_ranked [of cfg text_of product k vs ts] c by simp_all
  from r have "sorted_wrt (\<lambda>a b. cand_score b \<le> cand_score a) (candidates r)"
    by (rule sorted_wrt_mono_rel [rotated]) (simp add: ranks_before_desc)
  moreover from r have
    "sorted_wrt (\<lambda>a b. cand_score a = cand_score b \<longrightarrow> cand_page a < cand_page b) (candidates r)"
    by (rule sorted_wrt_mono_rel [rotated]) (auto simp: ranks_before_def)
  ultimately show ?thesis using r l by simp
qed

text \<open>Pages 1 and 7 tie at score 0: page 1 comes first, and page 7 falls to the cut at
  \<open>k = 2\<close>.\<close>

lemma sample_rank:
  "hybrid_rank sample_config (text_of_chunk sample_store) None 2 sample_vector_hits sample_text_hits
   = [\<lparr>cand_page = 4, cand_product = None, cand_score = 1, snippet = ''torque'',
        full_text = ''torque spec 35 Nm''\<rparr>,
      \<lparr>cand_page = 1, cand_product = None, cand_score = 0, snippet = ''safety'',
        full_text = ''safety notes''\<rparr>]"
  by code_simp

theorem hybrid_retriever_ranked_witness:
  "hybrid_retrieve sample_config (text_of_chunk sample_store) None 2
      (Some sample_vector_hits) (Some sample_text_hits)
    = Inr \<lparr>candidates = hybrid_rank sample_config (text_of_chunk sample_store) None 2
              sample_vector_hits sample_text_hits, degraded = False\<rparr>
   \<and> map ranked_entry (hybrid_rank sample_config (text_of_chunk sample_store) None 2
              sample_vector_hits sample_text_hits) = [(4, 1), (1, 0)]
   \<and> length (hybrid_rank sample_config (text_of_chunk sample_store) None 2
              sample_vector_hits sample_text_hits) \<le> nat 2
   \<and> sorted_wrt ranks_before (hybrid_rank sample_config (text_of_chunk sample_store) None 2
              sample_vector_hits sample_text_hits)"
proof -
  let ?C = "hybrid_rank sample_config (text_of_chunk sample_store) None 2
              sample_vector_hits sample_text_hits"
  have e: "hybrid_retrieve sample_config (text_of_chunk sample_store) None 2
      (Some sample_vector_hits) (Some sample_text_hits) = Inr \<lparr>candidates = ?C, degraded = False\<rparr>"
    by (simp add: hybrid_retrieve_def)
  have v: "map ranked_entry ?C = [(4, 1), (1, 0)]"
    by (simp add: sample_rank ranked_entry_def)
  from hybrid_retriever_ranked [OF e] e v show ?thesis by simp
qed

text \<open>
  C4. The ranking is a function of the two result sets. Its pages and scores do not
  depend on the order in which either backend listed its hits; and the order of step
  4 leaves no choice: any arrangement of the fused candidates that respects it,
  truncated to \<open>k\<close>, is the sequence the Hybrid Retriever returns, ties included.
\<close>

theorem fusion_deterministic:
  "(mset vs' = mset vs \<and> mset ts' = mset ts \<longrightarrow>
      map ranked_entry (hybrid_rank cfg text_of product k vs' ts')
        = map ranked_entry (hybrid_rank cfg text_of product k vs ts))
   \<and> (\<forall>ys. mset ys = mset (fuse cfg text_of product vs ts) \<and> sorted_wrt ranks_before ys \<longrightarrow>
         take (nat k) ys = hybrid_rank cfg text_of product k vs ts)"
  using hybrid_rank_perm [of vs' vs ts' ts cfg text_of product k]
    ranking_unique [of _ cfg text_of product vs ts k]
  by simp

lemma sample_fuse:
  "fuse sample_config (text_of_chunk sample_store) None sample_vector_hits sample_text_hits
   = [\<lparr>cand_page = 7, cand_product = None, cand_score = 0, snippet = ''wiring'',
        full_text = ''wiring''\<rparr>,
      \<lparr>cand_page = 1, cand_product = None, cand_score = 0, snippet = ''safety'',
        full_text = ''safety notes''\<rparr>,
      \<lparr>cand_page = 4, cand_product = None, cand_score = 1, snippet = ''torque'',
        full_text = ''torque spec 35 Nm''\<rparr>]"
  by code_simp

text \<open>Both result sets listed backwards, and the three fused candidates arranged by
  hand.\<close>

theorem fusion_deterministic_witness:
  "map ranked_entry (hybrid_rank sample_config (text_of_chunk sample_store) None 2
      (rev sample_vector_hits) (rev sample_text_hits)) = [(4, 1), (1, 0)]
   \<and> take (nat 2)
       [\<lparr>cand_page = 4, cand_product = None, cand_score = 1, snippet = ''torque'',
          full_text = ''torque spec 35 Nm''\<rparr>,
        \<lparr>cand_page = 1, cand_product = None, cand_score = 0, snippet = ''safety'',
          full_text = ''safety notes''\<rparr>,
        \<lparr>cand_page = 7, cand_product = None, cand_score = 0, snippet = ''wiring'',
          full_text = ''wiring''\<rparr>]
     = hybrid_rank sample_config (text_of_chunk sample_store) None 2
         sample_vector_hits sample_text_hits"
proof -
  let ?ys = "[\<lparr>cand_page = 4, cand_product = None, cand_score = 1, snippet = ''torque'',
          full_text = ''torque spec 35 Nm''\<rparr>,
        \<lparr>cand_page = 1, cand_product = None, cand_score = 0, snippet = ''safety'',
          full_text = ''safety notes''\<rparr>,
        \<lparr>cand_page = 7, cand_product = None, cand_score = 0, snippet = ''wiring'',
          full_text = ''wiring''\<rparr>]"
  note d = fusion_deterministic [of "rev sample_vector_hits" sample_vector_hits
      "rev sample_text_hits" sample_text_hits sample_config "text_of_chunk sample_store" None 2]
  have p: "mset (rev sample_vector_hits) = mset sample_vector_hits
      \<and> mset (rev sample_text_hits) = mset sample_text_hits" by simp
  have m: "mset ?ys = mset (fuse sample_config (text_of_chunk sample_store) None
      sample_vector_hits sample_text_hits) \<and> sorted_wrt ranks_before ?ys"
    by (simp add: sample_fuse ranks_before_def)
  from d [THEN conjunct1, rule_format, OF p] d [THEN conjunct2, rule_format, OF m]
  show ?thesis by (simp add: sample_rank ranked_entry_def)
qed

subsection \<open>Page provenance\<close>

lemma served_pages:
  assumes "serves store b" "b q m n = Some hs"
  shows "hit_page ` set hs \<subseteq> indexed_pages store m"
proof
  fix p assume "p \<in> hit_page ` set hs"
  then obtain h where h: "h \<in> set hs" "p = hit_page h" by auto
  with assms obtain c where c: "c \<in> set store" "chunk_manual c = m" "chunk_page c = hit_page h"
    unfolding serves_def by blast
  from c(1,2) have "chunk_page c \<in> indexed_pages store m" by (simp add: indexed_pages_def)
  with c(3) h(2) show "p \<in> indexed_pages store m" by simp
qed

lemma search_serves: "serves store (search src rel store)"
  unfolding serves_def
proof (intro allI impI ballI)
  fix q m n hs h
  assume a: "search src rel store q m n = Some hs" and h: "h \<in> set hs"
  let ?cs = "take n (rev (sort_key (rel q) (filter (\<lambda>c. chunk_manual c = m) store)))"
  let ?mk = "\<lambda>c. \<lparr>hit_chunk = chunk_id c, hit_manual = m, hit_page = chunk_page c,
                      hit_score = rel q c, hit_source = src\<rparr>"
  from a have "hs = map ?mk ?cs" by (simp only: search_def option.inject)
  with h obtain c where c: "c \<in> set ?cs" "h = ?mk c" by (auto simp only: set_map)
  from c(1) have "c \<in> set (rev (sort_key (rel q) (filter (\<lambda>c. chunk_manual c = m) store)))"
    by (rule in_set_takeD)
  then have "c \<in> set store" "chunk_manual c = m" by simp_all
  with c(2) show "hit_manual h = m \<and>
        (\<exists>c\<in>set store. chunk_manual c = m \<and> chunk_id c = hit_chunk h
           \<and> chunk_page c = hit_page h)"
    by (intro conjI bexI [of _ c]) simp_all
qed

lemma hybrid_rank_pages:
  "cand_page ` set (hybrid_rank cfg text_of product k vs ts) \<subseteq> hit_page ` set (vs @ ts)"
proof -
  have "set (hybrid_rank cfg text_of product k vs ts) \<subseteq> set (fuse cfg text_of product vs ts)"
    using set_take_subset [of "nat k" "sort_key rank_key (fuse cfg text_of product vs ts)"]
    by (simp add: hybrid_rank_def)
  then have "cand_page ` set (hybrid_rank cfg text_of product k vs ts)
      \<subseteq> set (map cand_page (fuse cfg text_of product vs ts))"
    by auto
  then show ?thesis by (simp only: fuse_pages set_remdups set_map)
qed

lemma build_context_subset: "set (build_context budget cs) \<subseteq> set cs"
  by (induction cs arbitrary: budget) auto

text \<open>The candidates of a retrieval come from the hits of the backends that answered.\<close>

lemma retrieved_pages:
  assumes "serves store vb" "serves store tb"
    and "hybrid_retrieve cfg text_of product k (vb q m n) (tb q m n) = Inr r"
  shows "cand_page ` set (candidates r) \<subseteq> indexed_pages store m"
proof (cases "vb q m n")
  case None
  with assms(3) obtain ts where ts: "tb q m n = Some ts"
    and c: "candidates r = hybrid_rank cfg text_of product k [] ts"
    by (auto simp: hybrid_retrieve_def split: option.splits)
  from hybrid_rank_pages [of cfg text_of product k "[]" ts] served_pages [OF assms(2) ts] c
  show ?thesis by simp
next
  case (Some vs)
  note v = served_pages [OF assms(1) Some]
  show ?thesis
  proof (cases "tb q m n")
    case None
    with Some assms(3) have c: "candidates r = hybrid_rank cfg text_of product k vs []"
      by (auto simp: hybrid_retrieve_def)
    from hybrid_rank_pages [of cfg text_of product k vs "[]"] v c
    show ?thesis by simp
  next
    case (Some ts)
    with \<open>vb q m n = Some vs\<close> assms(3) have c: "candidates r = hybrid_rank cfg text_of product k vs ts"
      by (auto simp: hybrid_retrieve_def)
    from v served_pages [OF assms(2) Some]
    have "hit_page ` set (vs @ ts) \<subseteq> indexed_pages store m" by (simp add: image_Un)
    with hybrid_rank_pages [of cfg text_of product k vs ts] c
    show ?thesis by (simp only: subset_trans)
  qed
qed

lemma synthesize_pages:
  assumes "synthesize cfg generate model m q cands included = Inr a"
  shows "cite_page ` set (result_citations a) \<subseteq> cand_page ` set included"
    and "set (top_pages a) \<subseteq> cand_page ` set included"
    and "set (manual_sections a) \<subseteq> set cands"
    and "manual_id a = m"
proof -
  from assms obtain reply where a: "a = \<lparr>result_answer = reply,
      result_citations = map to_citation (filter (\<lambda>c. relevance_floor cfg < cand_score c) included),
      manual_sections = take (sections_shown cfg) cands, used_model = model,
      top_pages = remdups (map cite_page
        (map to_citation (filter (\<lambda>c. relevance_floor cfg < cand_score c) included))),
      manual_id = m\<rparr>"
    by (auto simp: synthesize_def Let_def split: option.splits)
  show "cite_page ` set (result_citations a) \<subseteq> cand_page ` set included"
    by (auto simp: a to_citation_def)
  show "set (top_pages a) \<subseteq> cand_page ` set included"
    by (auto simp: a to_citation_def)
  show "set (manual_sections a) \<subseteq> set cands"
    using set_take_subset [of "sections_shown cfg" cands] by (simp add: a)
  show "manual_id a = m" by (simp add: a)
qed

text \<open>
  C1. When both backends keep their contract over the index (every hit is a chunk
  indexed for the manual asked for), every answer the query flow returns for a manual
  cites only pages indexed for that manual: the page of each citation, each entry of
  \<open>top_pages\<close> and the page of each manual section belong to the pages of the
  manual's chunks, and the result names the manual asked for.
\<close>

theorem citations_are_indexed:
  assumes "serves store vector_store" "serves store text_store"
    and "answer_query cfg vector_store text_store text_of product generate model m q = Inr out"
  shows "(\<forall>c\<in>set (result_citations (reply_result out)). cite_page c \<in> indexed_pages store m)
    \<and> set (top_pages (reply_result out)) \<subseteq> indexed_pages store m
    \<and> (\<forall>s\<in>set (manual_sections (reply_result out)). cand_page s \<in> indexed_pages store m)
    \<and> manual_id (reply_result out) = m"
proof -
  from assms(3) obtain r a where
    r: "hybrid_retrieve cfg text_of product (top_k cfg)
          (vector_store q m (nat (2 * top_k cfg))) (text_store q m (nat (2 * top_k cfg))) = Inr r"
    and s: "synthesize cfg generate model m q (candidates r)
          (build_context (context_budget cfg) (candidates r)) = Inr a"
    and out: "reply_result out = a"
    by (auto simp: answer_query_def split: sum.splits)
  note ok = retrieved_pages [OF assms(1) assms(2) r]
  have inc: "cand_page ` set (build_context (context_budget cfg) (candidates r))
      \<subseteq> indexed_pages store m"
    by (rule subset_trans [OF image_mono [OF build_context_subset] ok])
  have c1: "cite_page ` set (result_citations a) \<subseteq> indexed_pages store m"
    by (rule subset_trans [OF synthesize_pages(1) [OF s] inc])
  have c2: "set (top_pages a) \<subseteq> indexed_pages store m"
    by (rule subset_trans [OF synthesize_pages(2) [OF s] inc])
  have "cand_page ` set (manual_sections a) \<subseteq> cand_page ` set (candidates r)"
    using synthesize_pages(3) [OF s] by (rule image_mono)
  then have c3: "cand_page ` set (manual_sections a) \<subseteq> indexed_pages store m"
    using ok by (rule subset_trans)
  from c1 c2 c3 synthesize_pages(4) [OF s] show ?thesis
    by (simp add: out image_subset_iff)
qed

text \<open>The small index, asked about manual \<open>m1\<close> through the two reference
  backends: the chunk of manual \<open>m2\<close> on page 9 is never cited.\<close>

lemma sample_answer:
  "answer_query sample_config (search Vector sample_similarity sample_store)
     (search Lexical sample_keywords sample_store) (text_of_chunk sample_store) (Some ''XYZ'')
     sample_generate ''llama'' ''m1'' sample_question
   = Inr \<lparr>reply_result = \<lparr>result_answer = ''torque spec 35 Nmwiring'',
       result_citations = [\<lparr>cite_page = 4, cite_product = Some ''XYZ'', cite_score = Some (7 / 10)\<rparr>,
          \<lparr>cite_page = 7, cite_product = Some ''XYZ'', cite_score = Some (3 / 5)\<rparr>],
       manual_sections = [\<lparr>cand_page = 4, cand_product = Some ''XYZ'', cand_score = 7 / 10,
          snippet = ''torque'', full_text = ''torque spec 35 Nm''\<rparr>],
       used_model = ''llama'', top_pages = [4, 7], manual_id = ''m1''\<rparr>,
     reply_degraded = False\<rparr>"
  by code_simp

lemma sample_indexed: "indexed_pages sample_store ''m1'' = {1, 4, 7}"
  by (auto simp: indexed_pages_def sample_store_def sample_chunk_def)

theorem citations_are_indexed_witness:
  "indexed_pages sample_store ''m1'' = {1, 4, 7}
   \<and> map cite_page (result_citations (reply_result (projr (answer_query sample_config
         (search Vector sample_similarity sample_store)
         (search Lexical sample_keywords sample_store) (text_of_chunk sample_store) (Some ''XYZ'')
         sample_generate ''llama'' ''m1'' sample_question)))) = [4, 7]
   \<and> set (top_pages (reply_result (projr (answer_query sample_config
         (search Vector sample_similarity sample_store)
         (search Lexical sample_keywords sample_store) (text_of_chunk sample_store) (Some ''XYZ'')
         sample_generate ''llama'' ''m1'' sample_question)))) \<subseteq> indexed_pages sample_store ''m1''"
  using citations_are_indexed [OF search_serves search_serves sample_answer]
  by (simp add: sample_answer sample_indexed)

end
